theory Spec2Isabelle
  imports Complex_Main "HOL-Library.AList"
begin

section \<open>JavaScript strings and values\<close>

text \<open>
  A JavaScript string is modelled as a \<^typ>\<open>string\<close>: a list of characters, each read as
  one code unit in the range U+0000 .. U+00FF (ASCII and Latin-1, which holds the Swedish
  letters of the exclusion keywords). \<open>length\<close> is the \<open>.length\<close> of the source. URLs read
  from \<open>window.location.href\<close> are serialised URLs and lie in the ASCII part of that range.
\<close>

definition upper_letters :: string where
  "upper_letters = ''ABCDEFGHIJKLMNOPQRSTUVWXYZ'' @
     [CHR 0xC0, CHR 0xC1, CHR 0xC2, CHR 0xC3, CHR 0xC4, CHR 0xC5, CHR 0xC6, CHR 0xC7,
      CHR 0xC8, CHR 0xC9, CHR 0xCA, CHR 0xCB, CHR 0xCC, CHR 0xCD, CHR 0xCE, CHR 0xCF,
      CHR 0xD0, CHR 0xD1, CHR 0xD2, CHR 0xD3, CHR 0xD4, CHR 0xD5, CHR 0xD6,
      CHR 0xD8, CHR 0xD9, CHR 0xDA, CHR 0xDB, CHR 0xDC, CHR 0xDD, CHR 0xDE]"

definition lower_letters :: string where
  "lower_letters = ''abcdefghijklmnopqrstuvwxyz'' @
     [CHR 0xE0, CHR 0xE1, CHR 0xE2, CHR 0xE3, CHR 0xE4, CHR 0xE5, CHR 0xE6, CHR 0xE7,
      CHR 0xE8, CHR 0xE9, CHR 0xEA, CHR 0xEB, CHR 0xEC, CHR 0xED, CHR 0xEE, CHR 0xEF,
      CHR 0xF0, CHR 0xF1, CHR 0xF2, CHR 0xF3, CHR 0xF4, CHR 0xF5, CHR 0xF6,
      CHR 0xF8, CHR 0xF9, CHR 0xFA, CHR 0xFB, CHR 0xFC, CHR 0xFD, CHR 0xFE]"

definition translate :: "string \<Rightarrow> string \<Rightarrow> char \<Rightarrow> char" where
  "translate from to c = (case map_of (zip from to) c of Some d \<Rightarrow> d | None \<Rightarrow> c)"

text \<open>\<open>String.prototype.toLowerCase\<close> on the modelled range: A-Z and the Latin-1 capitals
  (U+00C0 .. U+00DE without the multiplication sign) move to their small letters.\<close>

definition toLowerCase :: "string \<Rightarrow> string" where
  "toLowerCase s = map (translate upper_letters lower_letters) s"

text \<open>\<open>String.prototype.toUpperCase\<close> on the modelled range: small letters move to their
  capitals and the sharp s (U+00DF) becomes \<open>SS\<close>. The micro sign (U+00B5) and y with
  diaeresis (U+00FF) have capitals outside the range (U+039C, U+0178); the model leaves
  them in place, which keeps distinct strings distinct exactly as the capitals do.\<close>

definition toUpperCase :: "string \<Rightarrow> string" where
  "toUpperCase s =
     concat (map (\<lambda>c. if c = CHR 0xDF then ''SS'' else [translate lower_letters upper_letters c]) s)"

text \<open>Case folding of a regular expression with the \<open>i\<close> flag (and no \<open>u\<close> flag): only
  the ASCII letters fold onto the ASCII letters of a pattern.\<close>

definition ascii_fold :: "string \<Rightarrow> string" where
  "ascii_fold s = map (translate ''ABCDEFGHIJKLMNOPQRSTUVWXYZ'' ''abcdefghijklmnopqrstuvwxyz'') s"

definition startsWith :: "string \<Rightarrow> string \<Rightarrow> bool" where
  "startsWith s p = (take (length p) s = p)"

fun js_includes :: "string \<Rightarrow> string \<Rightarrow> bool" where
  "js_includes [] p = (p = [])"
| "js_includes (c # cs) p = (startsWith (c # cs) p \<or> js_includes cs p)"

text \<open>White space of \<open>trim\<close> and of the class \<open>\s\<close> on the modelled range: tab, line feed,
  vertical tab, form feed, carriage return, space and the no-break space.\<close>

definition is_space :: "char \<Rightarrow> bool" where
  "is_space c = (c \<in> set [CHR 0x09, CHR 0x0A, CHR 0x0B, CHR 0x0C, CHR 0x0D, CHR '' '', CHR 0xA0])"

definition is_digit :: "char \<Rightarrow> bool" where
  "is_digit c = (c \<in> set ''0123456789'')"

definition trim :: "string \<Rightarrow> string" where
  "trim s = rev (dropWhile is_space (rev (dropWhile is_space s)))"

text \<open>\<open>s.replace(c, r)\<close> with a one-character string pattern: only the first occurrence
  is replaced.\<close>

fun replace_first :: "char \<Rightarrow> string \<Rightarrow> string \<Rightarrow> string" where
  "replace_first c r [] = []"
| "replace_first c r (x # xs) = (if x = c then r @ xs else x # replace_first c r xs)"

text \<open>Values that cross the message boundaries: JSON values, and \<open>undefined\<close> for a
  property that is absent. An object is the list of its own properties in insertion
  order; the first binding of a key is its value. Numbers are carried, never computed
  with: only whether a number is zero is inspected.\<close>

datatype jsval =
    JUndefined
  | JNull
  | JBool bool
  | JNum real
  | JStr string
  | JArr "jsval list"
  | JObj "(string \<times> jsval) list"

fun truthy :: "jsval \<Rightarrow> bool" where
  "truthy JUndefined = False"
| "truthy JNull = False"
| "truthy (JBool b) = b"
| "truthy (JNum n) = (n \<noteq> 0)"
| "truthy (JStr s) = (s \<noteq> [])"
| "truthy (JArr xs) = True"
| "truthy (JObj fs) = True"

text \<open>\<open>typeof v === "object"\<close>: true of \<open>null\<close>, arrays and objects.\<close>

fun typeof_object :: "jsval \<Rightarrow> bool" where
  "typeof_object JNull = True"
| "typeof_object (JArr xs) = True"
| "typeof_object (JObj fs) = True"
| "typeof_object v = False"

fun isArray :: "jsval \<Rightarrow> bool" where
  "isArray (JArr xs) = True"
| "isArray v = False"

text \<open>Property read \<open>v.k\<close> for the property names the extension uses (\<open>namn\<close>, \<open>title\<close>,
  \<open>data\<close>, \<open>url\<close>, ...): none of them is an array index, \<open>length\<close> or a method of a
  prototype, so only an object's own binding can answer, and everything else gives
  \<open>undefined\<close>.\<close>

fun get_prop :: "jsval \<Rightarrow> string \<Rightarrow> jsval" where
  "get_prop (JObj fs) k = (case map_of fs k of Some v \<Rightarrow> v | None \<Rightarrow> JUndefined)"
| "get_prop v k = JUndefined"

text \<open>\<open>a || b\<close>.\<close>

definition js_or :: "jsval \<Rightarrow> jsval \<Rightarrow> jsval" where
  "js_or a b = (if truthy a then a else b)"

text \<open>Decimal spelling of an array index, for the keys an array gets when it is spread
  into an object literal.\<close>

fun decimal :: "nat \<Rightarrow> string" where
  "decimal n = (if n < 10 then [''0123456789'' ! n]
                else decimal (n div 10) @ [''0123456789'' ! (n mod 10)])"

text \<open>\<open>{ ...v }\<close>: the own enumerable properties of \<open>v\<close>; an array contributes its
  elements under their indices.\<close>

fun spread :: "jsval \<Rightarrow> (string \<times> jsval) list" where
  "spread (JObj fs) = fs"
| "spread (JArr xs) = zip (map decimal [0 ..< length xs]) xs"
| "spread v = []"

section \<open>Relay and sanitizer (background.js)\<close>

definition NAME_EXCLUDE_KEYWORDS :: "string list" where
  "NAME_EXCLUDE_KEYWORDS = [[CHR ''f'', CHR 0xF6] @ ''rening'', ''holding'']"

text \<open>\<open>urlContainsEnskild\<close>, on a string: \<open>url && url.toLowerCase().includes("/enskild/")\<close>.
  The same function stands in background.js and in content.js.\<close>

definition urlContainsEnskild :: "string \<Rightarrow> bool" where
  "urlContainsEnskild url = (url \<noteq> [] \<and> js_includes (toLowerCase url) ''/enskild/'')"

fun normalizeCompanyName :: "jsval \<Rightarrow> string" where
  "normalizeCompanyName (JStr name) =
     toLowerCase (filter (\<lambda>c. \<not> is_digit c) (filter (\<lambda>c. \<not> is_space c) name))"
| "normalizeCompanyName v = []"

fun shouldSkipCompany :: "jsval \<Rightarrow> bool" where
  "shouldSkipCompany (JStr name) =
     list_ex (\<lambda>kw. js_includes (toLowerCase name) kw) NAME_EXCLUDE_KEYWORDS"
| "shouldSkipCompany v = False"

text \<open>The three values \<open>sanitizeCompanyList\<close> derives from an entry that is an object.\<close>

definition rawName :: "jsval \<Rightarrow> jsval" where
  "rawName entry =
     js_or (get_prop entry ''namn'')
       (js_or (get_prop entry ''company_name'')
         (js_or (get_prop entry ''companyName'') (get_prop entry ''title'')))"

definition rawId :: "jsval \<Rightarrow> jsval" where
  "rawId entry = js_or (get_prop entry ''kungorelseid'') (get_prop entry ''kungorelseId'')"

fun normalizeId :: "jsval \<Rightarrow> string" where
  "normalizeId (JStr s) = replace_first (CHR ''/'') ''-'' (toUpperCase (trim s))"
| "normalizeId v = []"

text \<open>The \<open>for\<close> loop of \<open>sanitizeCompanyList\<close>: \<open>seenIds\<close> and \<open>seenNames\<close> are the two
  sets, and the result is what the loop pushes onto \<open>cleaned\<close>, in order.\<close>

fun sanitize_loop :: "string set \<Rightarrow> string set \<Rightarrow> jsval list \<Rightarrow> jsval list" where
  "sanitize_loop seenIds seenNames [] = []"
| "sanitize_loop seenIds seenNames (entry # items) =
     (if \<not> truthy entry \<or> \<not> typeof_object entry
      then entry # sanitize_loop seenIds seenNames items
      else if shouldSkipCompany (rawName entry)
      then sanitize_loop seenIds seenNames items
      else if normalizeId (rawId entry) \<noteq> [] \<and> normalizeId (rawId entry) \<in> seenIds
      then sanitize_loop seenIds seenNames items
      else if normalizeCompanyName (rawName entry) \<noteq> []
              \<and> normalizeCompanyName (rawName entry) \<in> seenNames
      then sanitize_loop seenIds seenNames items
      else entry #
        sanitize_loop
          (if normalizeId (rawId entry) \<noteq> []
           then insert (normalizeId (rawId entry)) seenIds else seenIds)
          (if normalizeCompanyName (rawName entry) \<noteq> []
           then insert (normalizeCompanyName (rawName entry)) seenNames else seenNames)
          items)"

fun sanitizeCompanyList :: "jsval \<Rightarrow> jsval" where
  "sanitizeCompanyList (JArr items) = JArr (sanitize_loop {} {} items)"
| "sanitizeCompanyList v = v"

definition sanitizePayload :: "jsval \<Rightarrow> jsval" where
  "sanitizePayload payload =
     (if \<not> truthy payload \<or> \<not> typeof_object payload then payload
      else
        let cloned = spread payload;
            d = get_prop (JObj cloned) ''data''
        in if isArray d
           then JObj (AList.update ''data'' (sanitizeCompanyList d) cloned)
           else if truthy d \<and> typeof_object d \<and> isArray (get_prop d ''data'')
           then JObj (AList.update ''data''
                  (JObj (AList.update ''data'' (sanitizeCompanyList (get_prop d ''data'')) (spread d)))
                  cloned)
           else JObj cloned)"

text \<open>What a relay function did: nothing (the message was blocked), one HTTP request to
  the collector (path and JSON body), or a \<open>TypeError\<close> raised before any request.\<close>

datatype relay_result =
    Blocked
  | Fetched string jsval
  | Threw

text \<open>\<open>postToLocal\<close>: the request is sent whatever the collector answers.\<close>

definition postToLocal :: "jsval \<Rightarrow> relay_result" where
  "postToLocal payload = Fetched ''/save'' (sanitizePayload payload)"

text \<open>\<open>postKungorelseToLocal\<close>. The guard \<open>payload && payload.url &&
  urlContainsEnskild(payload.url)\<close> stands outside the \<open>try\<close>: a truthy \<open>url\<close> that is not a
  string has no \<open>toLowerCase\<close>, and the call raises before any request.\<close>

definition postKungorelseToLocal :: "jsval \<Rightarrow> relay_result" where
  "postKungorelseToLocal payload =
     (if truthy payload \<and> truthy (get_prop payload ''url'')
      then (case get_prop payload ''url'' of
              JStr url \<Rightarrow>
                if urlContainsEnskild url then Blocked
                else Fetched ''/save_kungorelse'' payload
            | _ \<Rightarrow> Threw)
      else Fetched ''/save_kungorelse'' payload)"

text \<open>The \<open>chrome.runtime.onMessage\<close> listener: \<open>None\<close> when the message is not handled.\<close>

definition onMessage :: "jsval \<Rightarrow> relay_result option" where
  "onMessage msg =
     (if \<not> truthy msg \<or> \<not> typeof_object msg then None
      else if get_prop msg ''type'' = JStr ''KV_SAVE_JSON'' \<and> truthy (get_prop msg ''payload'')
      then Some (postToLocal (get_prop msg ''payload''))
      else if get_prop msg ''type'' = JStr ''KV_SAVE_KUNGORELSE'' \<and> truthy (get_prop msg ''payload'')
      then Some (postKungorelseToLocal (get_prop msg ''payload''))
      else None)"

section \<open>Page orchestrator (content.js)\<close>

text \<open>What a callback reads from the page when it runs: the browser owns these values and
  may change them between two callbacks.\<close>

record dom =
  loc_href :: string
    \<comment> \<open>\<open>window.location.href\<close>\<close>
  body_text :: "string option"
    \<comment> \<open>\<open>document.body.innerText\<close>; \<open>None\<close> when \<open>document.body\<close> is null\<close>
  main_html :: "string option"
    \<comment> \<open>\<open>innerHTML\<close> of \<open>document.querySelector("main")\<close>; \<open>None\<close> when there is none\<close>
  link_count :: nat
    \<comment> \<open>\<open>document.querySelectorAll('a[href*="/kungorelse/K"]').length\<close>\<close>
  doc_title :: string
    \<comment> \<open>\<open>document.title\<close>\<close>
  iso_time :: string
    \<comment> \<open>\<open>new Date().toISOString()\<close>\<close>
  query_selector :: "string \<Rightarrow> string option"
    \<comment> \<open>\<open>document.querySelector(selector)\<close>: the element found, named by a string\<close>

text \<open>\<open>/^https:\/\/poit\.bolagsverket\.se\/poit-app\/kungorelse\/K[^/]+/i\<close>, written out four
  times in the source.\<close>

definition kungorelse_re :: "string \<Rightarrow> bool" where
  "kungorelse_re u =
     (startsWith (ascii_fold u) ''https://poit.bolagsverket.se/poit-app/kungorelse/k''
      \<and> (case drop (length ''https://poit.bolagsverket.se/poit-app/kungorelse/k'') u of
            [] \<Rightarrow> False
          | c # cs \<Rightarrow> c \<noteq> CHR ''/''))"

text \<open>\<open>/^https:\/\/poit\.bolagsverket\.se\/poit-app\/enskild\//i\<close>.\<close>

definition enskild_re :: "string \<Rightarrow> bool" where
  "enskild_re u = startsWith (ascii_fold u) ''https://poit.bolagsverket.se/poit-app/enskild/''"

definition isKungorelsePage :: "string \<Rightarrow> bool" where
  "isKungorelsePage u =
     (if js_includes (toLowerCase u) ''/enskild/'' then False else kungorelse_re u)"

text \<open>\<open>/\/enskild\//i.test(window.location.href)\<close>.\<close>

definition isEnskildPage :: "string \<Rightarrow> bool" where
  "isEnskildPage u = js_includes (ascii_fold u) ''/enskild/''"

text \<open>\<open>extractKungorelseId\<close>: the first match of \<open>/(?:kungorelse|enskild)\/(K[\d\-]+)/\<close>
  (case-sensitive), scanning start positions from the left; the group takes the longest
  run of digits and hyphens.\<close>

definition id_char :: "char \<Rightarrow> bool" where
  "id_char c = (is_digit c \<or> c = CHR ''-'')"

definition match_id_at :: "string \<Rightarrow> string option" where
  "match_id_at s =
     (case (if startsWith s ''kungorelse/'' then Some (drop (length ''kungorelse/'') s)
            else if startsWith s ''enskild/'' then Some (drop (length ''enskild/'') s)
            else None) of
        None \<Rightarrow> None
      | Some [] \<Rightarrow> None
      | Some (c # cs) \<Rightarrow>
          if c = CHR ''K'' \<and> takeWhile id_char cs \<noteq> []
          then Some (c # takeWhile id_char cs) else None)"

fun extractKungorelseId :: "string \<Rightarrow> string option" where
  "extractKungorelseId [] = None"
| "extractKungorelseId (c # cs) =
     (case match_id_at (c # cs) of
        Some i \<Rightarrow> Some i
      | None \<Rightarrow> extractKungorelseId cs)"

text \<open>What \<open>.then\<close> chains on the promise of \<open>handleEnskildPage\<close>: nothing (page load and
  observer), the 2500 ms re-check of the initial timer, or the 2000 ms capture of the URL
  poller.\<close>

datatype continuation = NoThen | ThenRecheck | ThenCapture

text \<open>The callbacks waiting in the event queue: timers, and \<open>handleEnskildPage\<close> suspended
  at one of its two \<open>await\<close>s.\<close>

datatype task =
    InitialCheck
    \<comment> \<open>the 1000 ms timer set at load\<close>
  | EnskildDwell continuation
    \<comment> \<open>\<open>handleEnskildPage\<close> at its first \<open>await\<close> (1 to 2 s)\<close>
  | EnskildClick string continuation
    \<comment> \<open>\<open>handleEnskildPage\<close> at its second \<open>await\<close>, holding the link it found\<close>
  | RecheckAfterClick
    \<comment> \<open>the 2500 ms timer chained by the initial check\<close>
  | CaptureAfterClick
    \<comment> \<open>the 2000 ms timer chained by the poller\<close>
  | CaptureCheck string
    \<comment> \<open>the 3000 ms timer of \<open>captureKungorelseData\<close>, holding \<open>normalizedId\<close>\<close>

record orchestrator =
  capturedKungorelseIds :: "string set"
  pendingCaptures :: "string set"
  lastUrl :: string
  enskildHandled :: bool
    \<comment> \<open>\<open>document.body.dataset.enskildHandled === "true"\<close>\<close>
  monitors :: bool
    \<comment> \<open>the poller and the observer exist: \<open>IS_KUNGORELSE || IS_ENSKILD\<close> at load\<close>
  tasks :: "task list"
  sent :: "jsval list"
    \<comment> \<open>the messages given to \<open>chrome.runtime.sendMessage\<close>, oldest first\<close>
  clicked :: "string list"
    \<comment> \<open>the links on which \<open>click()\<close> was called, oldest first\<close>

definition capture_message :: "string \<Rightarrow> dom \<Rightarrow> jsval" where
  "capture_message normalizedId d =
     JObj [(''type'', JStr ''KV_SAVE_KUNGORELSE''),
           (''payload'', JObj
              [(''url'', JStr (loc_href d)),
               (''kungorelseId'', JStr normalizedId),
               (''textContent'', JStr (case body_text d of None \<Rightarrow> [] | Some t \<Rightarrow> t)),
               (''htmlContent'', JStr (case main_html d of None \<Rightarrow> [] | Some h \<Rightarrow> h)),
               (''timestamp'', JStr (iso_time d)),
               (''title'', JStr (if doc_title d \<noteq> [] then doc_title d
                                 else ''Kung'' @ [CHR 0xF6] @ ''relse '' @ normalizedId))])]"

text \<open>The callback of the 3000 ms timer inside \<open>captureKungorelseData\<close>.\<close>

definition capture_check :: "string \<Rightarrow> dom \<Rightarrow> orchestrator \<Rightarrow> orchestrator" where
  "capture_check normalizedId d st =
     (if \<not> kungorelse_re (loc_href d) \<or> enskild_re (loc_href d)
      then st\<lparr>pendingCaptures := pendingCaptures st - {normalizedId}\<rparr>
      else if normalizedId \<in> capturedKungorelseIds st
      then st\<lparr>pendingCaptures := pendingCaptures st - {normalizedId}\<rparr>
      else if length (case body_text d of None \<Rightarrow> [] | Some t \<Rightarrow> t) < 500
      then st\<lparr>pendingCaptures := pendingCaptures st - {normalizedId}\<rparr>
      else if link_count d > 2 \<and> length (case body_text d of None \<Rightarrow> [] | Some t \<Rightarrow> t) < 1000
      then st\<lparr>pendingCaptures := pendingCaptures st - {normalizedId}\<rparr>
      else if urlContainsEnskild (loc_href d)
      then st\<lparr>pendingCaptures := pendingCaptures st - {normalizedId}\<rparr>
      else st\<lparr>capturedKungorelseIds := insert normalizedId (capturedKungorelseIds st),
              pendingCaptures := pendingCaptures st - {normalizedId},
              sent := sent st @ [capture_message normalizedId d]\<rparr>)"

definition captureKungorelseData :: "dom \<Rightarrow> orchestrator \<Rightarrow> orchestrator" where
  "captureKungorelseData d st =
     (if urlContainsEnskild (loc_href d) then st
      else if \<not> isKungorelsePage (loc_href d) \<or> isEnskildPage (loc_href d) then st
      else case extractKungorelseId (loc_href d) of
        None \<Rightarrow> st
      | Some kungorelseId \<Rightarrow>
          let normalizedId = replace_first (CHR ''/'') ''-'' kungorelseId
          in if normalizedId \<in> capturedKungorelseIds st \<or> normalizedId \<in> pendingCaptures st
             then st
             else st\<lparr>pendingCaptures := insert normalizedId (pendingCaptures st),
                     tasks := tasks st @ [CaptureCheck normalizedId]\<rparr>)"

text \<open>The promise of \<open>handleEnskildPage\<close> is settled: the chained \<open>.then\<close> callback sets
  its timer.\<close>

fun settled :: "continuation \<Rightarrow> orchestrator \<Rightarrow> orchestrator" where
  "settled NoThen st = st"
| "settled ThenRecheck st = st\<lparr>tasks := tasks st @ [RecheckAfterClick]\<rparr>"
| "settled ThenCapture st = st\<lparr>tasks := tasks st @ [CaptureAfterClick]\<rparr>"

text \<open>\<open>handleEnskildPage\<close> up to its first \<open>await\<close>. The handled flag lives on
  \<open>document.body\<close>: without a body it is neither read nor written.\<close>

definition handleEnskildPage :: "continuation \<Rightarrow> dom \<Rightarrow> orchestrator \<Rightarrow> orchestrator" where
  "handleEnskildPage k d st =
     (if \<not> isEnskildPage (loc_href d) then settled k st
      else if body_text d \<noteq> None \<and> enskildHandled st then settled k st
      else st\<lparr>enskildHandled := (if body_text d \<noteq> None then True else enskildHandled st),
              tasks := tasks st @ [EnskildDwell k]\<rparr>)"

definition selectors :: "string list" where
  \<open>selectors =
     [''a[href*="/poit-app/kungorelse/K"][title="Visa kung'' @ [CHR 0xF6] @ ''relse"]'',
      ''a.btn-link[href*="/kungorelse/K"]'',
      ''a[href*="/kungorelse/K"]'']\<close>

text \<open>The \<open>for\<close> loop over the selectors: the first selector that finds an element.\<close>

fun first_link :: "dom \<Rightarrow> string list \<Rightarrow> string option" where
  "first_link d [] = None"
| "first_link d (selector # rest) =
     (case query_selector d selector of
        Some link \<Rightarrow> Some link
      | None \<Rightarrow> first_link d rest)"

text \<open>\<open>handleEnskildPage\<close> after the dwell time: a link found is clicked after a second,
  short wait; with no link the function returns \<open>false\<close>.\<close>

definition after_dwell :: "continuation \<Rightarrow> dom \<Rightarrow> orchestrator \<Rightarrow> orchestrator" where
  "after_dwell k d st =
     (case first_link d selectors of
        Some link \<Rightarrow> st\<lparr>tasks := tasks st @ [EnskildClick link k]\<rparr>
      | None \<Rightarrow> settled k st)"

definition click_link :: "string \<Rightarrow> continuation \<Rightarrow> orchestrator \<Rightarrow> orchestrator" where
  "click_link link k st = settled k (st\<lparr>clicked := clicked st @ [link]\<rparr>)"

definition initial_check :: "dom \<Rightarrow> orchestrator \<Rightarrow> orchestrator" where
  "initial_check d st =
     (if isEnskildPage (loc_href d) then handleEnskildPage ThenRecheck d st
      else if isKungorelsePage (loc_href d) then captureKungorelseData d st
      else st)"

definition recheck_after_click :: "dom \<Rightarrow> orchestrator \<Rightarrow> orchestrator" where
  "recheck_after_click d st =
     (if kungorelse_re (loc_href d) \<and> \<not> enskild_re (loc_href d)
      then captureKungorelseData d st else st)"

text \<open>The \<open>setInterval\<close> callback (every 500 ms).\<close>

definition poll :: "dom \<Rightarrow> orchestrator \<Rightarrow> orchestrator" where
  "poll d st =
     (if loc_href d \<noteq> lastUrl st
      then
        let st1 = st\<lparr>lastUrl := loc_href d,
                     enskildHandled := (if body_text d \<noteq> None then False else enskildHandled st)\<rparr>
        in if enskild_re (loc_href d) then handleEnskildPage ThenCapture d st1
           else if kungorelse_re (loc_href d) then captureKungorelseData d st1
           else st1
      else st)"

text \<open>The \<open>MutationObserver\<close> callback.\<close>

definition observe :: "dom \<Rightarrow> orchestrator \<Rightarrow> orchestrator" where
  "observe d st = (if enskild_re (loc_href d) then handleEnskildPage NoThen d st else st)"

text \<open>The script body: what runs once when the content script is loaded into a page.\<close>

definition load :: "dom \<Rightarrow> orchestrator" where
  "load d =
     (let IS_KUNGORELSE = isKungorelsePage (loc_href d);
          IS_ENSKILD = isEnskildPage (loc_href d);
          st = \<lparr>capturedKungorelseIds = {}, pendingCaptures = {}, lastUrl = loc_href d,
                enskildHandled = False, monitors = (IS_KUNGORELSE \<or> IS_ENSKILD),
                tasks = (if IS_KUNGORELSE \<or> IS_ENSKILD then [InitialCheck] else []),
                sent = [], clicked = []\<rparr>
      in if IS_ENSKILD then handleEnskildPage NoThen d st else st)"

fun run_task :: "task \<Rightarrow> dom \<Rightarrow> orchestrator \<Rightarrow> orchestrator" where
  "run_task InitialCheck d st = initial_check d st"
| "run_task (EnskildDwell k) d st = after_dwell k d st"
| "run_task (EnskildClick link k) d st = click_link link k st"
| "run_task RecheckAfterClick d st = recheck_after_click d st"
| "run_task CaptureAfterClick d st = captureKungorelseData d st"
| "run_task (CaptureCheck normalizedId) d st = capture_check normalizedId d st"

text \<open>One step of the event queue: a poller tick, an observer notification, or the
  \<open>n\<close>-th waiting callback running (any order: the model does not fix the delays), each
  with the page as it is at that moment.\<close>

datatype event = Tick dom | Mutation dom | Run nat dom

fun step :: "event \<Rightarrow> orchestrator \<Rightarrow> orchestrator" where
  "step (Tick d) st = (if monitors st then poll d st else st)"
| "step (Mutation d) st = (if monitors st then observe d st else st)"
| "step (Run n d) st =
     (if n < length (tasks st)
      then run_task (tasks st ! n) d (st\<lparr>tasks := take n (tasks st) @ drop (Suc n) (tasks st)\<rparr>)
      else st)"

definition run :: "event list \<Rightarrow> orchestrator \<Rightarrow> orchestrator" where
  "run es st = foldl (\<lambda>s e. step e s) st es"

text \<open>The \<open>kungorelseId\<close> a sent message carries.\<close>

definition sent_id :: "jsval \<Rightarrow> jsval" where
  "sent_id m = get_prop (get_prop m ''payload'') ''kungorelseId''"

definition sent_url :: "jsval \<Rightarrow> jsval" where
  "sent_url m = get_prop (get_prop m ''payload'') ''url''"

text \<open>The URL changes the poller sees along a run: each one resets the handled flag.\<close>

fun url_changes :: "event list \<Rightarrow> orchestrator \<Rightarrow> nat" where
  "url_changes [] st = 0"
| "url_changes (Tick d # es) st =
     (if monitors st \<and> loc_href d \<noteq> lastUrl st then 1 else 0) + url_changes es (step (Tick d) st)"
| "url_changes (e # es) st = url_changes es (step e st)"

section \<open>Hook layer (injected.js)\<close>

definition TARGET_HOST :: string where
  "TARGET_HOST = ''poit.bolagsverket.se''"

text \<open>The hooks are installed only on pages of the registry: the wrappers below exist
  when \<open>PAGE_OK\<close> holds of the page's URL.\<close>

definition PAGE_OK :: "string \<Rightarrow> bool" where
  "PAGE_OK page_href = startsWith page_href ''https://poit.bolagsverket.se/''"

fun shouldIgnoreUrl :: "jsval \<Rightarrow> bool" where
  "shouldIgnoreUrl (JStr u) =
     (if u = [] then False
      else let lowerUrl = toLowerCase u
           in startsWith lowerUrl ''chrome://'' \<or>
              startsWith lowerUrl ''chrome-extension://'' \<or>
              startsWith lowerUrl ''file://'' \<or>
              startsWith lowerUrl ''moz-extension://'' \<or>
              startsWith lowerUrl ''edge://'' \<or>
              startsWith lowerUrl ''about:'' \<or>
              startsWith lowerUrl ''data:'')"
| "shouldIgnoreUrl v = False"

text \<open>\<open>/\/poit\/rest\/sok[a-z]*?kung[a-z]*/i.test(p)\<close>: somewhere in the path stands
  \<open>/poit/rest/sok\<close>, then letters, then \<open>kung\<close> (the trailing \<open>[a-z]*\<close> may match nothing).\<close>

definition is_ascii_letter :: "char \<Rightarrow> bool" where
  "is_ascii_letter c =
     (c \<in> set (''abcdefghijklmnopqrstuvwxyz'' @ ''ABCDEFGHIJKLMNOPQRSTUVWXYZ''))"

definition endpoint_at :: "string \<Rightarrow> bool" where
  "endpoint_at s =
     (startsWith (ascii_fold s) ''/poit/rest/sok'' \<and>
      (let rest = drop (length ''/poit/rest/sok'') s
       in list_ex (\<lambda>k. startsWith (ascii_fold (drop k rest)) ''kung'')
            [0 ..< Suc (length (takeWhile is_ascii_letter rest))]))"

fun endpoint_re :: "string \<Rightarrow> bool" where
  "endpoint_re [] = False"
| "endpoint_re (c # cs) = (endpoint_at (c # cs) \<or> endpoint_re cs)"

text \<open>\<open>isTargetUrl\<close>. The browser's URL parser is a parameter: \<open>resolve u\<close> is the
  \<open>hostname\<close> and \<open>pathname\<close> of \<open>new URL(u, window.location.href)\<close>, or \<open>None\<close> when the
  constructor throws.\<close>

definition isTargetUrl :: "(jsval \<Rightarrow> (string \<times> string) option) \<Rightarrow> jsval \<Rightarrow> bool" where
  "isTargetUrl resolve u =
     (if shouldIgnoreUrl u then False
      else case resolve u of
        None \<Rightarrow> False
      | Some (hostname, pathname) \<Rightarrow>
          if hostname \<noteq> TARGET_HOST then False else endpoint_re pathname)"

text \<open>\<open>bridgeSave\<close>: the messages posted to the window (one).\<close>

definition bridgeSave :: "jsval \<Rightarrow> jsval list" where
  "bridgeSave payload =
     [JObj [(''__kv'', JBool True), (''type'', JStr ''KV_SAVE_JSON''), (''payload'', payload)]]"

definition raw_text :: "string \<Rightarrow> jsval" where
  "raw_text txt = JObj [(''raw_text'', JStr txt)]"

subsection \<open>The fetch wrapper\<close>

text \<open>The first argument of \<open>fetch\<close>: a string, a \<open>Request\<close> (with its \<open>url\<close>), or anything
  else (a \<open>URL\<close> object has no \<open>url\<close> property).\<close>

datatype fetch_input = InputString string | InputRequest string | InputOther

fun requestUrl :: "fetch_input \<Rightarrow> string" where
  "requestUrl (InputString u) = u"
| "requestUrl (InputRequest u) = u"
| "requestUrl InputOther = []"

text \<open>A response as the wrapper sees it: the \<open>content-type\<close> header (\<open>None\<close> when absent)
  and the body: none, a stream that delivers a text, or a stream whose reading fails.\<close>

datatype resp_body = NoBody | Body string | Broken

record response =
  content_type :: "string option"
  resp_body :: resp_body

datatype js_error = SyntaxError | TypeError

text \<open>Reading a body, as the Fetch standard prescribes for \<open>text()\<close> and \<open>json()\<close>: a
  stream can be read once; a second read of a response that has a body is rejected with
  a \<open>TypeError\<close>. The flag says whether the clone has been read; the result carries the
  new flag.\<close>

definition consume_body :: "response \<Rightarrow> bool \<Rightarrow> (js_error + string) \<times> bool" where
  "consume_body r used =
     (case resp_body r of
        NoBody \<Rightarrow> (Inr [], used)
      | Body s \<Rightarrow> if used then (Inl TypeError, used) else (Inr s, True)
      | Broken \<Rightarrow> (Inl TypeError, True))"

text \<open>\<open>JSON.parse\<close> is a parameter: \<open>None\<close> when it throws a \<open>SyntaxError\<close>.\<close>

definition resp_json ::
  "(string \<Rightarrow> jsval option) \<Rightarrow> response \<Rightarrow> bool \<Rightarrow> (js_error + jsval) \<times> bool" where
  "resp_json parse r used =
     (case consume_body r used of
        (Inl e, used') \<Rightarrow> (Inl e, used')
      | (Inr s, used') \<Rightarrow>
          (case parse s of None \<Rightarrow> (Inl SyntaxError, used') | Some v \<Rightarrow> (Inr v, used')))"

text \<open>The \<open>.then\<close> callback of the wrapper when \<open>shouldCapture\<close> holds: the messages it
  posts. Every rejection ends in a \<open>.catch\<close>.\<close>

definition fetch_capture :: "(string \<Rightarrow> jsval option) \<Rightarrow> string \<Rightarrow> response \<Rightarrow> jsval list" where
  "fetch_capture parse u r =
     (let ct = (case content_type r of None \<Rightarrow> [] | Some c \<Rightarrow> c)
      in if ct \<noteq> [] \<and> js_includes (toLowerCase ct) ''application/json''
         then (case resp_json parse r False of
                 (Inr v, used) \<Rightarrow> bridgeSave (JObj [(''url'', JStr u), (''data'', v)])
               | (Inl e, used) \<Rightarrow>
                   (case consume_body r used of
                      (Inr txt, used') \<Rightarrow>
                        bridgeSave (JObj [(''url'', JStr u), (''data'', raw_text txt)])
                    | (Inl e', used') \<Rightarrow> []))
         else (case consume_body r False of
                 (Inr txt, used) \<Rightarrow>
                   bridgeSave (JObj [(''url'', JStr u), (''data'', raw_text txt)])
               | (Inl e, used) \<Rightarrow> []))"

text \<open>The wrapper around \<open>window.fetch\<close>, for a call that the original \<open>fetch\<close> answers
  with the response \<open>r\<close>: the messages posted.\<close>

definition fetch_wrapper ::
  "(jsval \<Rightarrow> (string \<times> string) option) \<Rightarrow> (string \<Rightarrow> jsval option) \<Rightarrow>
   fetch_input \<Rightarrow> response \<Rightarrow> jsval list" where
  "fetch_wrapper resolve parse input r =
     (if shouldIgnoreUrl (JStr (requestUrl input)) then []
      else if isTargetUrl resolve (JStr (requestUrl input))
      then fetch_capture parse (requestUrl input) r
      else [])"

subsection \<open>The XMLHttpRequest wrappers\<close>

text \<open>What the wrappers keep on a request object: the property \<open>__kv_url\<close> (\<open>None\<close> until
  it is assigned) and the \<open>loadend\<close> listeners added so far.\<close>

record xhr =
  kv_url :: "jsval option"
  loadend_listeners :: nat

definition new_xhr :: xhr where
  "new_xhr = \<lparr>kv_url = None, loadend_listeners = 0\<rparr>"

definition xhr_open :: "jsval \<Rightarrow> xhr \<Rightarrow> xhr" where
  "xhr_open u x = (if shouldIgnoreUrl u then x else x\<lparr>kv_url := Some u\<rparr>)"

definition xhr_send :: "xhr \<Rightarrow> xhr" where
  "xhr_send x = x\<lparr>loadend_listeners := Suc (loadend_listeners x)\<rparr>"

text \<open>A finished request: its \<open>responseType\<close>, the body text received, and the
  \<open>content-type\<close> response header (\<open>None\<close> when absent).\<close>

record xhr_result =
  response_type :: string
  response_body :: string
  response_ct :: "string option"

text \<open>One \<open>loadend\<close> listener. With \<open>responseType\<close> \<open>json\<close> the browser has decoded the
  body itself: \<open>this.response\<close> is the value, or \<open>null\<close> when the body does not parse.\<close>

definition loadend_handler ::
  "(jsval \<Rightarrow> (string \<times> string) option) \<Rightarrow> (string \<Rightarrow> jsval option) \<Rightarrow>
   xhr \<Rightarrow> xhr_result \<Rightarrow> jsval list" where
  "loadend_handler resolve parse x r =
     (case kv_url x of
        None \<Rightarrow> []
      | Some u \<Rightarrow>
          if \<not> truthy u \<or> \<not> isTargetUrl resolve u then []
          else
            let ct = toLowerCase (case response_ct r of None \<Rightarrow> [] | Some c \<Rightarrow> c);
                data =
                  (if response_type r = [] \<or> response_type r = ''text''
                   then (if js_includes ct ''application/json''
                         then (case parse (response_body r) of
                                 Some v \<Rightarrow> v
                               | None \<Rightarrow> raw_text (response_body r))
                         else raw_text (response_body r))
                   else if response_type r = ''json''
                   then (case parse (response_body r) of Some v \<Rightarrow> v | None \<Rightarrow> JNull)
                   else JNull)
            in if data = JNull \<or> data = JUndefined then []
               else bridgeSave (JObj [(''url'', u), (''data'', data)]))"

text \<open>The \<open>loadend\<close> event: every listener added by a \<open>send\<close> runs.\<close>

definition loadend :: 
  "(jsval \<Rightarrow> (string \<times> string) option) \<Rightarrow> (string \<Rightarrow> jsval option) \<Rightarrow>
   xhr \<Rightarrow> xhr_result \<Rightarrow> jsval list" where
  "loadend resolve parse x r =
     concat (replicate (loadend_listeners x) (loadend_handler resolve parse x r))"

section \<open>Vocabulary of the properties\<close>

text \<open>The normalized ids of the entries of a list that are objects and have one.\<close>

definition entry_ids :: "jsval list \<Rightarrow> string list" where
  "entry_ids out =
     filter (\<lambda>i. i \<noteq> []) (map (\<lambda>e. normalizeId (rawId e))
       (filter (\<lambda>e. truthy e \<and> typeof_object e) out))"

text \<open>The bookkeeping of the capture path is consistent: no id is both captured and
  pending, the sent messages carry pairwise distinct ids, each of them captured, and no
  sent message carries a URL of the alias-page pattern.\<close>

definition capture_inv :: "orchestrator \<Rightarrow> bool" where
  "capture_inv st =
     (capturedKungorelseIds st \<inter> pendingCaptures st = {}
      \<and> distinct (map sent_id (sent st))
      \<and> set (map sent_id (sent st)) \<subseteq> JStr ` capturedKungorelseIds st
      \<and> list_all (\<lambda>m. case sent_url m of JStr u \<Rightarrow> \<not> urlContainsEnskild u | _ \<Rightarrow> False) (sent st))"

text \<open>The calls of \<open>handleEnskildPage\<close> that are suspended at an \<open>await\<close>.\<close>

fun is_enskild_task :: "task \<Rightarrow> bool" where
  "is_enskild_task (EnskildDwell k) = True"
| "is_enskild_task (EnskildClick link k) = True"
| "is_enskild_task t = False"

definition handlers_in_flight :: "orchestrator \<Rightarrow> nat" where
  "handlers_in_flight st = length (filter is_enskild_task (tasks st))"

text \<open>Clicks done, clicks still possible from suspended calls, and the one call that can
  still pass the guard while the flag is not set.\<close>

definition click_budget :: "orchestrator \<Rightarrow> nat" where
  "click_budget st =
     length (clicked st) + handlers_in_flight st + (if enskildHandled st then 0 else 1)"

fun event_dom :: "event \<Rightarrow> dom" where
  "event_dom (Tick d) = d"
| "event_dom (Mutation d) = d"
| "event_dom (Run n d) = d"

text \<open>Example pages: \<open>page u body n\<close> is a page at URL \<open>u\<close> with the given body text and
  \<open>n\<close> announcement links, no \<open>main\<close> element, and a link element \<open>link\<close> answering every
  selector when \<open>has_link\<close> holds.\<close>

definition page :: "string \<Rightarrow> string option \<Rightarrow> nat \<Rightarrow> bool \<Rightarrow> dom" where
  "page u body n has_link =
     \<lparr>loc_href = u, body_text = body, main_html = None, link_count = n,
      doc_title = ''Kung'' @ [CHR 0xF6] @ ''relse'', iso_time = ''2025-01-01T00:00:00.000Z'',
      query_selector = (\<lambda>selector. if has_link then Some ''link'' else None)\<rparr>"

text \<open>A body text of \<open>n\<close> characters.\<close>

definition filler :: "nat \<Rightarrow> string" where
  "filler n = replicate n (CHR ''a'')"

definition detail_url :: string where
  "detail_url = ''https://poit.bolagsverket.se/poit-app/kungorelse/K100-25''"

definition alias_url :: string where
  "alias_url = ''https://poit.bolagsverket.se/poit-app/enskild/K100-25''"

text \<open>The end-to-end scenario of the specification: the script loads on the alias page of
  K100-25, finds the link and clicks it; the poller sees the detail page and queues the
  capture; before the capture check runs, the initial check and a further URL change (the
  same page with a query string) classify the page again; the capture check runs; the
  poller sees the URL change back. One message is sent.\<close>

definition scenario :: "event list" where
  "scenario =
     [Run 1 (page alias_url (Some (filler 600)) 2 True),
      Run 1 (page alias_url (Some (filler 600)) 2 True),
      Tick (page detail_url (Some (filler 600)) 0 False),
      Run 0 (page detail_url (Some (filler 600)) 0 False),
      Tick (page (detail_url @ ''?again'') (Some (filler 600)) 0 False),
      Run 0 (page detail_url (Some (filler 600)) 0 False),
      Tick (page detail_url (Some (filler 600)) 0 False)]"

text \<open>A second alias page, and a run with the body present throughout: the script loads
  on the alias page of K100-25 and its call of \<open>handleEnskildPage\<close> is suspended; the poller
  sees the alias page of K200-25 and a second call is suspended; both calls wake up there,
  find the link and click it.\<close>

definition alias_url_b :: string where
  "alias_url_b = ''https://poit.bolagsverket.se/poit-app/enskild/K200-25''"

definition stale_call_clicks :: "event list" where
  "stale_call_clicks =
     [Tick (page alias_url_b (Some (filler 600)) 2 True),
      Run 1 (page alias_url_b (Some (filler 600)) 2 True),
      Run 1 (page alias_url_b (Some (filler 600)) 2 True),
      Run 1 (page alias_url_b (Some (filler 600)) 2 True),
      Run 1 (page alias_url_b (Some (filler 600)) 2 True)]"

text \<open>The script loads on an alias page before \<open>document.body\<close> exists; then the initial
  check and the two suspended calls of \<open>handleEnskildPage\<close> run, the body and a link being
  there.\<close>

definition alias_double_click :: "event list" where
  "alias_double_click =
     [Run 0 (page alias_url (Some (filler 600)) 2 True),
      Run 0 (page alias_url (Some (filler 600)) 2 True),
      Run 0 (page alias_url (Some (filler 600)) 2 True),
      Run 0 (page alias_url (Some (filler 600)) 2 True),
      Run 0 (page alias_url (Some (filler 600)) 2 True)]"

text \<open>A visit of an alias page whose body exists from the start: the observer fires, the
  initial check runs, the suspended call wakes up and clicks, the observer fires again.\<close>

definition alias_visit :: "event list" where
  "alias_visit =
     [Mutation (page alias_url (Some (filler 600)) 2 True),
      Run 0 (page alias_url (Some (filler 600)) 2 True),
      Run 0 (page alias_url (Some (filler 600)) 2 True),
      Mutation (page alias_url (Some (filler 600)) 2 True),
      Run 1 (page alias_url (Some (filler 600)) 2 True),
      Mutation (page alias_url (Some (filler 600)) 2 True)]"

text \<open>An endpoint of the registry's announcement search, the answer of the URL parser
  for it, and what \<open>JSON.parse\<close> answers on the two bodies of the examples: \<open>[]\<close> is the
  empty array and \<open><html>\<close> is not JSON.\<close>

definition search_url :: string where
  "search_url = ''https://poit.bolagsverket.se/poit/rest/SokKungorelse''"

definition example_resolve :: "jsval \<Rightarrow> (string \<times> string) option" where
  "example_resolve u =
     (if u = JStr search_url then Some (''poit.bolagsverket.se'', ''/poit/rest/SokKungorelse'')
      else if u = JStr ''chrome://settings/'' then Some (''settings'', ''/'')
      else None)"

definition example_parse :: "string \<Rightarrow> jsval option" where
  "example_parse s = (if s = ''[]'' then Some (JArr []) else None)"

section \<open>Evaluating the string functions\<close>

lemmas string_defs =
  toLowerCase_def toUpperCase_def ascii_fold_def translate_def upper_letters_def
  lower_letters_def startsWith_def is_space_def is_digit_def trim_def

lemma skip_holding: "shouldSkipCompany (JStr ''Exempel Holding AB'')"
  by (simp add: string_defs NAME_EXCLUDE_KEYWORDS_def)

lemma keep_teknik: "\<not> shouldSkipCompany (JStr ''Exempel Teknik AB'')"
  by (simp add: string_defs NAME_EXCLUDE_KEYWORDS_def)

lemma name_teknik: "normalizeCompanyName (JStr ''Exempel Teknik AB'') = ''exempelteknikab''"
  by (simp add: string_defs)

lemma id_upper: "normalizeId (JStr ''K1234-25'') = ''K1234-25''"
  by (simp add: string_defs)

lemma id_lower: "normalizeId (JStr ''k1234/25'') = ''K1234-25''"
  by (simp add: string_defs)

section \<open>The sanitizer\<close>

lemma sanitize_loop_idem:
  "sanitize_loop seenIds seenNames (sanitize_loop seenIds seenNames items)
     = sanitize_loop seenIds seenNames items"
  by (induction items arbitrary: seenIds seenNames) simp_all

text \<open>What the loop lets through: an object in the output passed all three rules.\<close>

lemma sanitize_loop_kept:
  "e \<in> set (sanitize_loop seenIds seenNames items) \<Longrightarrow> truthy e \<Longrightarrow> typeof_object e \<Longrightarrow>
     \<not> shouldSkipCompany (rawName e)
     \<and> (normalizeId (rawId e) = [] \<or> normalizeId (rawId e) \<notin> seenIds)
     \<and> (normalizeCompanyName (rawName e) = [] \<or> normalizeCompanyName (rawName e) \<notin> seenNames)"
proof (induction items arbitrary: seenIds seenNames)
  case Nil
  then show ?case by simp
next
  case (Cons x items)
  let ?S = "if normalizeId (rawId x) \<noteq> [] then insert (normalizeId (rawId x)) seenIds else seenIds"
  let ?N = "if normalizeCompanyName (rawName x) \<noteq> []
            then insert (normalizeCompanyName (rawName x)) seenNames else seenNames"
  from Cons.prems(1) consider
      (head) "e = x" "\<not> truthy x \<or> \<not> typeof_object x \<or>
         (\<not> shouldSkipCompany (rawName x)
          \<and> \<not> (normalizeId (rawId x) \<noteq> [] \<and> normalizeId (rawId x) \<in> seenIds)
          \<and> \<not> (normalizeCompanyName (rawName x) \<noteq> [] \<and> normalizeCompanyName (rawName x) \<in> seenNames))"
    | (same) "e \<in> set (sanitize_loop seenIds seenNames items)"
    | (grown) "e \<in> set (sanitize_loop ?S ?N items)"
    by (simp split: if_splits) blast+
  then show ?case
  proof cases
    case head
    with Cons.prems(2,3) show ?thesis by blast
  next
    case same
    then show ?thesis using Cons.IH Cons.prems(2,3) by blast
  next
    case grown
    from Cons.IH[OF grown Cons.prems(2,3)] show ?thesis
      by (auto split: if_splits)
  qed
qed

text \<open>An entry that is kept blocks every later entry with its normalized id.\<close>

lemma kept_blocks_same_id: 
  assumes "truthy e" "typeof_object e" "normalizeId (rawId e) \<noteq> []"
    and "sanitize_loop seenIds seenNames (e # rest) = e # out"
    and "e' \<in> set out" "truthy e'" "typeof_object e'"
  shows "normalizeId (rawId e') \<noteq> normalizeId (rawId e)"
proof -
  let ?S = "insert (normalizeId (rawId e)) seenIds"
  let ?N = "if normalizeCompanyName (rawName e) \<noteq> []
            then insert (normalizeCompanyName (rawName e)) seenNames else seenNames"
  have "e \<in> set (sanitize_loop seenIds seenNames (e # rest))"
    using assms(4) by simp
  from sanitize_loop_kept[OF this assms(1,2)]
  have "sanitize_loop seenIds seenNames (e # rest) = e # sanitize_loop ?S ?N rest"
    using assms(1,2,3) by auto
  with assms(4) have "out = sanitize_loop ?S ?N rest" by simp
  with assms(5) have "e' \<in> set (sanitize_loop ?S ?N rest)" by simp
  from sanitize_loop_kept[OF this assms(6,7)] assms(3) show ?thesis by auto
qed

lemma entry_ids_simps:
  "entry_ids [] = []"
  "entry_ids (x # xs) =
     (if truthy x \<and> typeof_object x \<and> normalizeId (rawId x) \<noteq> []
      then normalizeId (rawId x) # entry_ids xs else entry_ids xs)"
  by (simp_all add: entry_ids_def)

lemma entry_ids_seen:
  "i \<in> set (entry_ids (sanitize_loop seenIds seenNames items)) \<Longrightarrow> i \<notin> seenIds"
proof -
  assume "i \<in> set (entry_ids (sanitize_loop seenIds seenNames items))"
  then obtain e where e: "e \<in> set (sanitize_loop seenIds seenNames items)" "truthy e"
    "typeof_object e" "normalizeId (rawId e) = i" "i \<noteq> []"
    by (auto simp: entry_ids_def)
  from sanitize_loop_kept[OF e(1,2,3)] e(4,5) show ?thesis by auto
qed

lemma distinct_ids:
  "distinct (entry_ids (sanitize_loop seenIds seenNames items))"
proof (induction items arbitrary: seenIds seenNames)
  case Nil
  then show ?case by (simp add: entry_ids_simps)
next
  case (Cons x items)
  have "normalizeId (rawId x) \<notin> set (entry_ids (sanitize_loop (insert (normalizeId (rawId x)) seenIds) N items))" for N
    using entry_ids_seen by blast
  then show ?case using Cons.IH
    by (simp add: entry_ids_simps)
qed

declare normalizeId.simps [simp del] normalizeCompanyName.simps [simp del]
  shouldSkipCompany.simps [simp del]

lemma rawName_string_object: "rawName e = JStr name \<Longrightarrow> truthy e \<and> typeof_object e"
  by (cases e) (simp_all add: rawName_def js_or_def)

text \<open>Claim C4. The list sanitizer is idempotent: applying \<open>sanitizeCompanyList\<close> to its own
  output returns that output unchanged, so no entry is removed or reordered on the second
  pass. This holds for every value, a list or not.\<close>

theorem sanitizeCompanyList_idempotent:
  "sanitizeCompanyList (sanitizeCompanyList items) = sanitizeCompanyList items"
  by (cases items) (simp_all add: sanitize_loop_idem)

lemma two_ids_example:
  "sanitizeCompanyList
     (JArr [JObj [(''kungorelseid'', JStr ''K1234-25'')], JObj [(''kungorelseid'', JStr ''k1234/25'')]])
   = JArr [JObj [(''kungorelseid'', JStr ''K1234-25'')]]"
  by (simp add: rawId_def rawName_def js_or_def id_upper id_lower normalizeCompanyName.simps
        shouldSkipCompany.simps)

text \<open>The theorem of C4 at a list whose second entry is dropped on the first pass.\<close>

theorem sanitizeCompanyList_idempotent_witness:
  "sanitizeCompanyList (sanitizeCompanyList
     (JArr [JObj [(''kungorelseid'', JStr ''K1234-25'')], JObj [(''kungorelseid'', JStr ''k1234/25'')]]))
   = JArr [JObj [(''kungorelseid'', JStr ''K1234-25'')]]"
  using sanitizeCompanyList_idempotent
    [of "JArr [JObj [(''kungorelseid'', JStr ''K1234-25'')], JObj [(''kungorelseid'', JStr ''k1234/25'')]]"]
  by (simp only: two_ids_example)

lemma rawName_single:
  "k \<in> set [''namn'', ''company_name'', ''companyName'', ''title''] \<Longrightarrow> s \<noteq> [] \<Longrightarrow>
   rawName (JObj [(k, JStr s)]) = JStr s"
  by (auto simp add: rawName_def js_or_def)

lemma rawId_single_name:
  "k \<in> set [''namn'', ''company_name'', ''companyName'', ''title''] \<Longrightarrow>
   rawId (JObj [(k, v)]) = JUndefined"
  by (auto simp add: rawId_def js_or_def)

lemma holding_teknik_example:
  assumes "k \<in> set [''namn'', ''company_name'', ''companyName'', ''title'']"
  shows "sanitizeCompanyList
     (JArr [JObj [(k, JStr ''Exempel Holding AB'')], JObj [(k, JStr ''Exempel Teknik AB'')]])
   = JArr [JObj [(k, JStr ''Exempel Teknik AB'')]]"
  using skip_holding keep_teknik
  by (simp add: rawName_single[OF assms] rawId_single_name[OF assms] name_teknik)

lemma ok_ab_not_skipped: "\<not> shouldSkipCompany (JStr ''Ok AB'')"
  by (simp add: string_defs NAME_EXCLUDE_KEYWORDS_def shouldSkipCompany.simps)

lemma x_holding_lower: "js_includes (toLowerCase ''X Holding'') ''holding''"
  by (simp add: string_defs)

text \<open>Claim C5, as stated, fails: the code looks at one name only, the first truthy value
  among \<open>namn\<close>, \<open>company_name\<close>, \<open>companyName\<close> and \<open>title\<close>. An entry whose \<open>title\<close> contains
  the keyword \<open>holding\<close> is kept when its \<open>namn\<close> holds a name without a keyword.\<close>

theorem later_name_field_counterexample:
  "get_prop (JObj [(''namn'', JStr ''Ok AB''), (''title'', JStr ''X Holding'')]) ''title''
     = JStr ''X Holding''
   \<and> ''holding'' \<in> set NAME_EXCLUDE_KEYWORDS
   \<and> js_includes (toLowerCase ''X Holding'') ''holding''
   \<and> sanitizeCompanyList (JArr [JObj [(''namn'', JStr ''Ok AB''), (''title'', JStr ''X Holding'')]])
     = JArr [JObj [(''namn'', JStr ''Ok AB''), (''title'', JStr ''X Holding'')]]"
  using ok_ab_not_skipped x_holding_lower
  by (simp add: rawName_def rawId_def js_or_def NAME_EXCLUDE_KEYWORDS_def)

text \<open>Claim C5, amended. The name of an entry is the first truthy value among \<open>namn\<close>,
  \<open>company_name\<close>, \<open>companyName\<close> and \<open>title\<close>, in this order. An entry whose name is a string
  that contains, after \<open>toLowerCase\<close>, one of the exclusion keywords is in no output of the
  sanitizer; the fields after the first truthy one are not looked at, so that an entry
  whose name holds no keyword is kept by the keyword rule whatever its other fields hold
  (alone in a list, it is the output). In particular, under each of the four field names,
  an entry named "Exempel Holding AB" is dropped and an entry named "Exempel Teknik AB"
  is kept.\<close>

theorem exclusion_keywords_drop:
  "(rawName e = JStr name \<and> kw \<in> set NAME_EXCLUDE_KEYWORDS \<and> js_includes (toLowerCase name) kw
      \<and> sanitizeCompanyList (JArr items) = JArr out \<longrightarrow> e \<notin> set out)
   \<and> (\<forall>k \<in> set [''namn'', ''company_name'', ''companyName'', ''title''].
        sanitizeCompanyList
          (JArr [JObj [(k, JStr ''Exempel Holding AB'')], JObj [(k, JStr ''Exempel Teknik AB'')]])
        = JArr [JObj [(k, JStr ''Exempel Teknik AB'')]])
   \<and> (\<not> shouldSkipCompany (rawName e') \<longrightarrow> sanitizeCompanyList (JArr [e']) = JArr [e'])"
proof (intro conjI impI ballI)
  assume "\<not> shouldSkipCompany (rawName e')"
  then show "sanitizeCompanyList (JArr [e']) = JArr [e']"
    by simp
next
  assume a: "rawName e = JStr name \<and> kw \<in> set NAME_EXCLUDE_KEYWORDS
     \<and> js_includes (toLowerCase name) kw \<and> sanitizeCompanyList (JArr items) = JArr out"
  then have skip: "shouldSkipCompany (rawName e)"
    by (auto simp: list_ex_iff shouldSkipCompany.simps)
  from a have obj: "truthy e" "typeof_object e"
    using rawName_string_object by blast+
  from a have out: "out = sanitize_loop {} {} items" by simp
  show "e \<notin> set out"
  proof
    assume "e \<in> set out"
    with out have "e \<in> set (sanitize_loop {} {} items)" by simp
    from sanitize_loop_kept[OF this obj] skip show False by simp
  qed
next
  fix k :: string
  assume "k \<in> set [''namn'', ''company_name'', ''companyName'', ''title'']"
  then show "sanitizeCompanyList
          (JArr [JObj [(k, JStr ''Exempel Holding AB'')], JObj [(k, JStr ''Exempel Teknik AB'')]])
        = JArr [JObj [(k, JStr ''Exempel Teknik AB'')]]"
    by (rule holding_teknik_example)
qed

lemma holding_lower: "js_includes (toLowerCase ''Exempel Holding AB'') ''holding''"
  by (simp add: string_defs)

text \<open>The theorem of C5 at an entry that carries its name under \<open>title\<close>, and at an entry
  whose \<open>namn\<close> holds no keyword while its \<open>title\<close> does.\<close>

theorem exclusion_keywords_drop_witness:
  "rawName (JObj [(''title'', JStr ''Exempel Holding AB'')]) = JStr ''Exempel Holding AB''
   \<and> ''holding'' \<in> set NAME_EXCLUDE_KEYWORDS
   \<and> js_includes (toLowerCase ''Exempel Holding AB'') ''holding''
   \<and> sanitizeCompanyList
       (JArr [JObj [(''title'', JStr ''Exempel Holding AB'')], JObj [(''title'', JStr ''Exempel Teknik AB'')]])
     = JArr [JObj [(''title'', JStr ''Exempel Teknik AB'')]]
   \<and> JObj [(''title'', JStr ''Exempel Holding AB'')] \<notin> set [JObj [(''title'', JStr ''Exempel Teknik AB'')]]
   \<and> \<not> shouldSkipCompany
         (rawName (JObj [(''namn'', JStr ''Exempel Teknik AB''), (''title'', JStr ''Exempel Holding AB'')]))
   \<and> sanitizeCompanyList
       (JArr [JObj [(''namn'', JStr ''Exempel Teknik AB''), (''title'', JStr ''Exempel Holding AB'')]])
     = JArr [JObj [(''namn'', JStr ''Exempel Teknik AB''), (''title'', JStr ''Exempel Holding AB'')]]"
  using exclusion_keywords_drop
    [of "JObj [(''title'', JStr ''Exempel Holding AB'')]" "''Exempel Holding AB''" "''holding''"
        "[JObj [(''title'', JStr ''Exempel Holding AB'')], JObj [(''title'', JStr ''Exempel Teknik AB'')]]"
        "[JObj [(''title'', JStr ''Exempel Teknik AB'')]]"
        "JObj [(''namn'', JStr ''Exempel Teknik AB''), (''title'', JStr ''Exempel Holding AB'')]"]
    holding_lower keep_teknik
  by (simp add: rawName_def js_or_def NAME_EXCLUDE_KEYWORDS_def)

text \<open>An entry that is dropped, by whichever rule, leaves both sets as they were: the rest
  of the list is treated as if the entry had not been there.\<close>

lemma dropped_entry_blocks_nothing:
  "truthy e \<Longrightarrow> typeof_object e \<Longrightarrow>
   shouldSkipCompany (rawName e)
   \<or> (normalizeId (rawId e) \<noteq> [] \<and> normalizeId (rawId e) \<in> seenIds)
   \<or> (normalizeCompanyName (rawName e) \<noteq> [] \<and> normalizeCompanyName (rawName e) \<in> seenNames) \<Longrightarrow>
   sanitize_loop seenIds seenNames (e # rest) = sanitize_loop seenIds seenNames rest"
  by auto

text \<open>Claim C6, as stated, fails: two entries normalize to the same id, the first one is
  dropped by the keyword rule and never enters \<open>seenIds\<close>, and the second one is kept.\<close>

theorem same_id_first_dropped_counterexample:
  "normalizeId (rawId (JObj [(''kungorelseid'', JStr ''K1234-25''), (''namn'', JStr ''Exempel Holding AB'')]))
     = normalizeId (rawId (JObj [(''kungorelseid'', JStr ''k1234/25''), (''namn'', JStr ''Exempel Teknik AB'')]))
   \<and> sanitizeCompanyList
       (JArr [JObj [(''kungorelseid'', JStr ''K1234-25''), (''namn'', JStr ''Exempel Holding AB'')],
              JObj [(''kungorelseid'', JStr ''k1234/25''), (''namn'', JStr ''Exempel Teknik AB'')]])
     = JArr [JObj [(''kungorelseid'', JStr ''k1234/25''), (''namn'', JStr ''Exempel Teknik AB'')]]"
  using skip_holding keep_teknik
  by (simp add: rawId_def rawName_def js_or_def id_upper id_lower name_teknik)

text \<open>Claim C6, amended. The ids "K1234-25" and "k1234/25" normalize to the same id
  "K1234-25", and of two entries carrying only these ids the first alone is kept. In
  general: when the loop keeps an entry \<open>e\<close> that has a normalized id (whatever stood before
  it, that is for all contents of the two sets), every later entry with the same normalized
  id is dropped; and the normalized ids of the entries of an output are pairwise
  distinct.\<close>

theorem dedup_by_id:
  "normalizeId (JStr ''K1234-25'') = ''K1234-25''
   \<and> normalizeId (JStr ''k1234/25'') = ''K1234-25''
   \<and> sanitizeCompanyList
       (JArr [JObj [(''kungorelseid'', JStr ''K1234-25'')], JObj [(''kungorelseid'', JStr ''k1234/25'')]])
     = JArr [JObj [(''kungorelseid'', JStr ''K1234-25'')]]
   \<and> (truthy e \<and> typeof_object e \<and> normalizeId (rawId e) \<noteq> []
        \<and> sanitize_loop seenIds seenNames (e # rest) = e # out
        \<and> e' \<in> set out \<and> truthy e' \<and> typeof_object e'
        \<longrightarrow> normalizeId (rawId e') \<noteq> normalizeId (rawId e))
   \<and> distinct (entry_ids (sanitize_loop {} {} items))"
proof (intro conjI impI)
  assume "truthy e \<and> typeof_object e \<and> normalizeId (rawId e) \<noteq> []
        \<and> sanitize_loop seenIds seenNames (e # rest) = e # out
        \<and> e' \<in> set out \<and> truthy e' \<and> typeof_object e'"
  then show "normalizeId (rawId e') \<noteq> normalizeId (rawId e)"
    using kept_blocks_same_id[of e seenIds seenNames rest out e'] by blast
qed (rule id_upper id_lower two_ids_example distinct_ids)+

lemma id_k9: "normalizeId (JStr ''K9'') = ''K9''"
  by (simp add: string_defs normalizeId.simps)

lemma three_ids_example:
  "sanitize_loop {} {}
     [JObj [(''kungorelseid'', JStr ''K1234-25'')], JObj [(''kungorelseid'', JStr ''k1234/25'')],
      JObj [(''kungorelseid'', JStr ''K9'')]]
   = [JObj [(''kungorelseid'', JStr ''K1234-25'')], JObj [(''kungorelseid'', JStr ''K9'')]]"
  by (simp add: rawId_def rawName_def js_or_def id_upper id_lower id_k9 normalizeCompanyName.simps
        shouldSkipCompany.simps)

text \<open>The general part of the theorem of C6 at a list of three entries: the first is kept, the
  second has its id and is dropped, the third has another id and is kept.\<close>

theorem dedup_by_id_witness:
  "truthy (JObj [(''kungorelseid'', JStr ''K1234-25'')])
   \<and> typeof_object (JObj [(''kungorelseid'', JStr ''K1234-25'')])
   \<and> normalizeId (rawId (JObj [(''kungorelseid'', JStr ''K1234-25'')])) \<noteq> []
   \<and> sanitize_loop {} {}
       [JObj [(''kungorelseid'', JStr ''K1234-25'')], JObj [(''kungorelseid'', JStr ''k1234/25'')],
        JObj [(''kungorelseid'', JStr ''K9'')]]
     = [JObj [(''kungorelseid'', JStr ''K1234-25'')], JObj [(''kungorelseid'', JStr ''K9'')]]
   \<and> normalizeId (rawId (JObj [(''kungorelseid'', JStr ''K9'')]))
       \<noteq> normalizeId (rawId (JObj [(''kungorelseid'', JStr ''K1234-25'')]))"
  using dedup_by_id
    [of "JObj [(''kungorelseid'', JStr ''K1234-25'')]" "{}" "{}"
        "[JObj [(''kungorelseid'', JStr ''k1234/25'')], JObj [(''kungorelseid'', JStr ''K9'')]]"
        "[JObj [(''kungorelseid'', JStr ''K9'')]]" "JObj [(''kungorelseid'', JStr ''K9'')]"]
    three_ids_example
  by (simp add: rawId_def js_or_def id_upper id_k9)

lemma get_prop_update:
  "get_prop (JObj (AList.update k v fs)) k' = (if k' = k then v else get_prop (JObj fs) k')"
  by (simp add: update_conv')

lemma isArray_get_prop_object: "isArray (get_prop d k) \<Longrightarrow> truthy d \<and> typeof_object d"
  by (cases d) simp_all

lemma get_prop_present: "get_prop (JObj fs) k \<noteq> JUndefined \<Longrightarrow> k \<in> set (map fst fs)"
  by (force split: option.splits dest: map_of_SomeD)

lemma sanitizePayload_array:
  "sanitizePayload (JArr [JNull, JBool True]) = JObj [(''0'', JNull), (''1'', JBool True)]"
  by code_simp

text \<open>Claim C10. For a payload object with the fields \<open>fs\<close>, \<open>sanitizePayload\<close> keeps every
  field other than \<open>data\<close> (such as \<open>url\<close>) and the order of the keys; a \<open>data\<close> list is
  replaced by its sanitized list; when \<open>data\<close> is an object wrapping a \<open>data\<close> list, only
  that inner list is replaced and every other field of the wrapper is kept; and when
  \<open>data\<close> is neither, the whole payload is returned unchanged. A payload that is not an
  object is returned as it is. (The payloads the extension builds are objects with the
  fields \<open>url\<close> and \<open>data\<close>; an array in the place of the payload would come back as an
  object keyed by its indices, see \<open>sanitizePayload_array\<close>.)\<close>

theorem sanitizePayload_frame:
  "(k \<noteq> ''data'' \<longrightarrow> get_prop (sanitizePayload (JObj fs)) k = get_prop (JObj fs) k)
   \<and> (\<exists>fs'. sanitizePayload (JObj fs) = JObj fs' \<and> map fst fs' = map fst fs)
   \<and> (isArray (get_prop (JObj fs) ''data'') \<longrightarrow>
        get_prop (sanitizePayload (JObj fs)) ''data'' = sanitizeCompanyList (get_prop (JObj fs) ''data''))
   \<and> (\<not> isArray (get_prop (JObj fs) ''data'') \<and> isArray (get_prop (get_prop (JObj fs) ''data'') ''data'') \<longrightarrow>
        get_prop (get_prop (sanitizePayload (JObj fs)) ''data'') ''data''
          = sanitizeCompanyList (get_prop (get_prop (JObj fs) ''data'') ''data'')
        \<and> (k \<noteq> ''data'' \<longrightarrow> get_prop (get_prop (sanitizePayload (JObj fs)) ''data'') k
              = get_prop (get_prop (JObj fs) ''data'') k))
   \<and> (\<not> isArray (get_prop (JObj fs) ''data'')
        \<and> \<not> (truthy (get_prop (JObj fs) ''data'') \<and> typeof_object (get_prop (JObj fs) ''data'')
              \<and> isArray (get_prop (get_prop (JObj fs) ''data'') ''data''))
        \<longrightarrow> sanitizePayload (JObj fs) = JObj fs)
   \<and> (\<not> truthy payload \<or> \<not> typeof_object payload \<longrightarrow> sanitizePayload payload = payload)"
proof -
  let ?d = "get_prop (JObj fs) ''data''"
  consider (list) "isArray ?d"
    | (wrap) "\<not> isArray ?d" "isArray (get_prop ?d ''data'')"
    | (other) "\<not> isArray ?d" "\<not> isArray (get_prop ?d ''data'')"
    by blast
  then have main: "(k \<noteq> ''data'' \<longrightarrow> get_prop (sanitizePayload (JObj fs)) k = get_prop (JObj fs) k)
   \<and> (\<exists>fs'. sanitizePayload (JObj fs) = JObj fs' \<and> map fst fs' = map fst fs)
   \<and> (isArray (get_prop (JObj fs) ''data'') \<longrightarrow>
        get_prop (sanitizePayload (JObj fs)) ''data'' = sanitizeCompanyList (get_prop (JObj fs) ''data''))
   \<and> (\<not> isArray (get_prop (JObj fs) ''data'') \<and> isArray (get_prop (get_prop (JObj fs) ''data'') ''data'') \<longrightarrow>
        get_prop (get_prop (sanitizePayload (JObj fs)) ''data'') ''data''
          = sanitizeCompanyList (get_prop (get_prop (JObj fs) ''data'') ''data'')
        \<and> (k \<noteq> ''data'' \<longrightarrow> get_prop (get_prop (sanitizePayload (JObj fs)) ''data'') k
              = get_prop (get_prop (JObj fs) ''data'') k))
   \<and> (\<not> isArray (get_prop (JObj fs) ''data'')
        \<and> \<not> (truthy (get_prop (JObj fs) ''data'') \<and> typeof_object (get_prop (JObj fs) ''data'')
              \<and> isArray (get_prop (get_prop (JObj fs) ''data'') ''data''))
        \<longrightarrow> sanitizePayload (JObj fs) = JObj fs)"
  proof cases
    case list
    have "''data'' \<in> set (map fst fs)" using list by (intro get_prop_present) auto
    then have keys: "map fst (AList.update ''data'' v fs) = map fst fs" for v
      by (simp add: update_keys)
    have eq: "sanitizePayload (JObj fs) = JObj (AList.update ''data'' (sanitizeCompanyList ?d) fs)"
      using list by (simp add: sanitizePayload_def Let_def)
    show ?thesis unfolding eq using list keys
      by (simp add: get_prop_update del: get_prop.simps)
  next
    case wrap
    have "''data'' \<in> set (map fst fs)" using wrap(2) by (intro get_prop_present) auto
    then have keys: "map fst (AList.update ''data'' v fs) = map fst fs" for v
      by (simp add: update_keys)
    obtain ds where ds: "?d = JObj ds" using wrap(2) by (cases ?d) simp_all
    have eq: "sanitizePayload (JObj fs) = JObj (AList.update ''data''
       (JObj (AList.update ''data'' (sanitizeCompanyList (get_prop ?d ''data'')) ds)) fs)"
      using wrap ds by (simp add: sanitizePayload_def Let_def del: get_prop.simps)
    show ?thesis unfolding eq using wrap keys
      by (simp add: get_prop_update ds del: get_prop.simps)
  next
    case other
    have eq: "sanitizePayload (JObj fs) = JObj fs"
      using other by (simp add: sanitizePayload_def Let_def del: get_prop.simps)
    show ?thesis unfolding eq using other by simp
  qed
  have "\<not> truthy payload \<or> \<not> typeof_object payload \<longrightarrow> sanitizePayload payload = payload"
    by (simp add: sanitizePayload_def)
  with main show ?thesis by blast
qed

text \<open>The theorem of C10 at three payloads: a \<open>data\<close> list, a \<open>data\<close> object wrapping a list, and
  a raw-text \<open>data\<close>; and at \<open>null\<close>.\<close>

theorem sanitizePayload_frame_witness:
  "''url'' \<noteq> ''data''
   \<and> get_prop (sanitizePayload (JObj [(''url'', JStr ''u''),
        (''data'', JArr [JObj [(''namn'', JStr ''Exempel Holding AB'')], JObj [(''namn'', JStr ''Exempel Teknik AB'')]])])) ''url''
     = JStr ''u''
   \<and> get_prop (sanitizePayload (JObj [(''url'', JStr ''u''),
        (''data'', JArr [JObj [(''namn'', JStr ''Exempel Holding AB'')], JObj [(''namn'', JStr ''Exempel Teknik AB'')]])])) ''data''
     = JArr [JObj [(''namn'', JStr ''Exempel Teknik AB'')]]
   \<and> get_prop (get_prop (sanitizePayload (JObj [(''url'', JStr ''u''),
        (''data'', JObj [(''total'', JNum 2), (''data'', JArr [JNull, JNull])])])) ''data'') ''total'' = JNum 2
   \<and> sanitizePayload (JObj [(''url'', JStr ''u''), (''data'', raw_text ''x'')])
     = JObj [(''url'', JStr ''u''), (''data'', raw_text ''x'')]
   \<and> sanitizePayload JNull = JNull"
  using sanitizePayload_frame[of "''url''" "[(''url'', JStr ''u''),
        (''data'', JArr [JObj [(''namn'', JStr ''Exempel Holding AB'')], JObj [(''namn'', JStr ''Exempel Teknik AB'')]])]" JNull]
    sanitizePayload_frame[of "''total''" "[(''url'', JStr ''u''),
        (''data'', JObj [(''total'', JNum 2), (''data'', JArr [JNull, JNull])])]" JNull]
    sanitizePayload_frame[of "''url''" "[(''url'', JStr ''u''), (''data'', raw_text ''x'')]" JNull]
    holding_teknik_example[of "''namn''"]
  by (simp add: raw_text_def)

section \<open>The capture path\<close>

lemma sent_id_capture_message [simp]: "sent_id (capture_message i d) = JStr i"
  by (simp add: sent_id_def capture_message_def)

lemma sent_url_capture_message [simp]: "sent_url (capture_message i d) = JStr (loc_href d)"
  by (simp add: sent_url_def capture_message_def)

lemma capture_inv_frame:
  "capturedKungorelseIds st' = capturedKungorelseIds st \<Longrightarrow>
   pendingCaptures st' = pendingCaptures st \<Longrightarrow> sent st' = sent st \<Longrightarrow>
   capture_inv st' = capture_inv st"
  by (simp add: capture_inv_def)

lemma capture_check_inv: "capture_inv st \<Longrightarrow> capture_inv (capture_check i d st)"
  by (auto simp add: capture_inv_def capture_check_def)

lemma captureKungorelseData_inv: "capture_inv st \<Longrightarrow> capture_inv (captureKungorelseData d st)"
  by (auto simp add: capture_inv_def captureKungorelseData_def Let_def split: option.splits)

lemma settled_fields [simp]:
  "capturedKungorelseIds (settled k st) = capturedKungorelseIds st"
  "pendingCaptures (settled k st) = pendingCaptures st"
  "sent (settled k st) = sent st"
  "clicked (settled k st) = clicked st"
  "enskildHandled (settled k st) = enskildHandled st"
  "lastUrl (settled k st) = lastUrl st"
  "monitors (settled k st) = monitors st"
  "filter is_enskild_task (tasks (settled k st)) = filter is_enskild_task (tasks st)"
  by (cases k; simp)+

lemma handleEnskildPage_fields [simp]:
  "capturedKungorelseIds (handleEnskildPage k d st) = capturedKungorelseIds st"
  "pendingCaptures (handleEnskildPage k d st) = pendingCaptures st"
  "sent (handleEnskildPage k d st) = sent st"
  "clicked (handleEnskildPage k d st) = clicked st"
  "lastUrl (handleEnskildPage k d st) = lastUrl st"
  "monitors (handleEnskildPage k d st) = monitors st"
  by (simp_all add: handleEnskildPage_def)

lemma after_dwell_fields [simp]:
  "capturedKungorelseIds (after_dwell k d st) = capturedKungorelseIds st"
  "pendingCaptures (after_dwell k d st) = pendingCaptures st"
  "sent (after_dwell k d st) = sent st"
  "clicked (after_dwell k d st) = clicked st"
  "enskildHandled (after_dwell k d st) = enskildHandled st"
  by (simp_all add: after_dwell_def split: option.splits)

lemma click_link_fields [simp]:
  "capturedKungorelseIds (click_link link k st) = capturedKungorelseIds st"
  "pendingCaptures (click_link link k st) = pendingCaptures st"
  "sent (click_link link k st) = sent st"
  "clicked (click_link link k st) = clicked st @ [link]"
  "enskildHandled (click_link link k st) = enskildHandled st"
  by (simp_all add: click_link_def)

lemma capture_inv_other_fields [simp]:
  "capture_inv (st\<lparr>lastUrl := a\<rparr>) = capture_inv st"
  "capture_inv (st\<lparr>enskildHandled := b\<rparr>) = capture_inv st"
  "capture_inv (st\<lparr>tasks := ts\<rparr>) = capture_inv st"
  "capture_inv (st\<lparr>clicked := c\<rparr>) = capture_inv st"
  by (simp_all add: capture_inv_def)

lemma handleEnskildPage_inv [simp]: "capture_inv (handleEnskildPage k d st) = capture_inv st"
  by (rule capture_inv_frame) simp_all

lemma after_dwell_inv [simp]: "capture_inv (after_dwell k d st) = capture_inv st"
  by (rule capture_inv_frame) simp_all

lemma click_link_inv [simp]: "capture_inv (click_link link k st) = capture_inv st"
  by (rule capture_inv_frame) simp_all

lemma run_task_inv: "capture_inv st \<Longrightarrow> capture_inv (run_task t d st)"
  by (cases t)
    (simp_all add: initial_check_def recheck_after_click_def captureKungorelseData_inv
      capture_check_inv)

lemma poll_inv: "capture_inv st \<Longrightarrow> capture_inv (poll d st)"
  by (simp add: poll_def Let_def captureKungorelseData_inv)

lemma observe_inv: "capture_inv st \<Longrightarrow> capture_inv (observe d st)"
  by (simp add: observe_def)

lemma step_inv: "capture_inv st \<Longrightarrow> capture_inv (step e st)"
  by (cases e) (simp_all add: poll_inv observe_inv run_task_inv)

lemma run_Nil [simp]: "run [] st = st"
  by (simp add: run_def)

lemma run_Cons [simp]: "run (e # es) st = run es (step e st)"
  by (simp add: run_def)

lemma run_inv: "capture_inv st \<Longrightarrow> capture_inv (run es st)"
  by (induction es arbitrary: st) (simp_all add: step_inv)

lemma load_inv: "capture_inv (load d)"
proof -
  have "capture_inv \<lparr>capturedKungorelseIds = {}, pendingCaptures = {}, lastUrl = u,
                enskildHandled = False, monitors = m, tasks = ts, sent = [], clicked = []\<rparr>"
    for u m ts
    by (simp add: capture_inv_def)
  then show ?thesis
    by (simp add: load_def Let_def)
qed

lemma distinct_map_count:
  "distinct (map f xs) \<Longrightarrow> length (filter (\<lambda>m. f m = v) xs) \<le> 1"
proof (induction xs)
  case Nil
  then show ?case by simp
next
  case (Cons x xs)
  show ?case
  proof (cases "f x = v")
    case True
    have "f m \<noteq> v" if "m \<in> set xs" for m
    proof
      assume "f m = v"
      with True that have "f x \<in> f ` set xs" by (metis imageI)
      with Cons.prems show False by simp
    qed
    then have "\<forall>m \<in> set xs. f m \<noteq> v" by blast
    then have "filter (\<lambda>m. f m = v) xs = []" by (simp add: filter_empty_conv)
    with True show ?thesis by simp
  next
    case False
    with Cons show ?thesis by simp
  qed
qed

text \<open>The log of sent messages only grows.\<close>

lemma step_sent_grows: "\<exists>more. sent (step e st) = sent st @ more"
proof (cases e)
  case (Tick d)
  then show ?thesis
    by (simp add: poll_def Let_def captureKungorelseData_def split: option.splits)
next
  case (Mutation d)
  then show ?thesis by (simp add: observe_def)
next
  case (Run n d)
  show ?thesis
  proof (cases "n < length (tasks st)")
    case True
    then show ?thesis using Run
      by (cases "tasks st ! n")
        (simp_all add: initial_check_def recheck_after_click_def captureKungorelseData_def
          capture_check_def Let_def split: option.splits)
  next
    case False
    then show ?thesis using Run by simp
  qed
qed

lemma run_sent_grows: "\<exists>more. sent (run es st) = sent st @ more"
proof (induction es arbitrary: st)
  case Nil
  then show ?case by simp
next
  case (Cons e es)
  from step_sent_grows[of e st] obtain m1 where 1: "sent (step e st) = sent st @ m1" by blast
  from Cons.IH[of "step e st"] obtain m2 where "sent (run es (step e st)) = sent (step e st) @ m2"
    by blast
  with 1 show ?case by simp
qed

lemma run_append: "run (es @ es') st = run es' (run es st)"
  by (simp add: run_def)

section \<open>The example pages\<close>

lemma length_filler [simp]: "length (filler n) = n"
  by (simp add: filler_def)

lemma detail_url_facts:
  "kungorelse_re detail_url" "\<not> enskild_re detail_url" "\<not> urlContainsEnskild detail_url"
  "isKungorelsePage detail_url" "\<not> isEnskildPage detail_url"
  "extractKungorelseId detail_url = Some ''K100-25''"
  by code_simp+

lemma alias_url_facts:
  "\<not> kungorelse_re alias_url" "enskild_re alias_url" "urlContainsEnskild alias_url"
  "\<not> isKungorelsePage alias_url" "isEnskildPage alias_url"
  by code_simp+

lemma page_fields [simp]:
  "loc_href (page u b n l) = u" "body_text (page u b n l) = b" "link_count (page u b n l) = n"
  "main_html (page u b n l) = None"
  "query_selector (page u b n l) = (\<lambda>selector. if l then Some ''link'' else None)"
  by (simp_all add: page_def)

section \<open>Claims about the capture path\<close>

lemma capture_check_alias:
  "urlContainsEnskild (loc_href d) \<Longrightarrow>
   capture_check i d st = st\<lparr>pendingCaptures := pendingCaptures st - {i}\<rparr>"
  by (simp add: capture_check_def)

lemma relay_blocks_alias:
  "get_prop payload ''url'' = JStr u \<Longrightarrow> urlContainsEnskild u \<Longrightarrow>
   postKungorelseToLocal payload = Blocked"
  by (cases payload) (auto simp add: postKungorelseToLocal_def urlContainsEnskild_def)

lemma get_prop_string_truthy:
  "get_prop payload k = JStr u \<Longrightarrow> truthy payload \<and> typeof_object payload"
  by (cases payload) simp_all

lemma detail_again_facts:
  "kungorelse_re (detail_url @ ''?again'')" "\<not> enskild_re (detail_url @ ''?again'')"
  "\<not> urlContainsEnskild (detail_url @ ''?again'')"
  "isKungorelsePage (detail_url @ ''?again'')" "\<not> isEnskildPage (detail_url @ ''?again'')"
  "extractKungorelseId (detail_url @ ''?again'') = Some ''K100-25''"
  "detail_url @ ''?again'' \<noteq> detail_url"
  by code_simp+

lemma alias_differs: "alias_url \<noteq> detail_url"
  by code_simp

lemma scenario_run:
  "run scenario (load (page alias_url (Some (filler 600)) 2 True))
   = \<lparr>capturedKungorelseIds = {''K100-25''}, pendingCaptures = {},
      lastUrl = detail_url, enskildHandled = False, monitors = True, tasks = [],
      sent = [capture_message ''K100-25'' (page detail_url (Some (filler 600)) 0 False)],
      clicked = [''link'']\<rparr>"
  using alias_differs
  by (simp add: scenario_def load_def initial_check_def captureKungorelseData_def poll_def
      capture_check_def handleEnskildPage_def after_dwell_def click_link_def selectors_def
      detail_url_facts detail_again_facts alias_url_facts Let_def)

text \<open>Claim C1. A URL of the alias-page pattern (\<open>urlContainsEnskild\<close>: the lower-cased URL
  contains \<open>/enskild/\<close>) never reaches the collector. On such a page
  \<open>captureKungorelseData\<close> returns before queuing anything, and the capture check (its URL
  tests, or at the latest its final test before sending) sends nothing and only takes the
  id off the pending set. The relay answers a capture record carrying such a URL with no
  network call, directly and through its message listener. And in every run of the
  orchestrator every message sent carries a URL that does not match the pattern.\<close>

theorem alias_never_forwarded:
  "(urlContainsEnskild (loc_href d) \<longrightarrow>
      captureKungorelseData d st = st
      \<and> capture_check i d st = st\<lparr>pendingCaptures := pendingCaptures st - {i}\<rparr>)
   \<and> (get_prop payload ''url'' = JStr u \<and> urlContainsEnskild u \<longrightarrow>
        postKungorelseToLocal payload = Blocked
        \<and> onMessage (JObj [(''type'', JStr ''KV_SAVE_KUNGORELSE''), (''payload'', payload)])
            = Some Blocked)
   \<and> (m \<in> set (sent (run es (load d0))) \<longrightarrow>
        (\<exists>v. sent_url m = JStr v \<and> \<not> urlContainsEnskild v))"
proof (intro conjI impI)
  assume "urlContainsEnskild (loc_href d)"
  then show "captureKungorelseData d st = st"
    by (simp add: captureKungorelseData_def)
next
  assume "urlContainsEnskild (loc_href d)"
  then show "capture_check i d st = st\<lparr>pendingCaptures := pendingCaptures st - {i}\<rparr>"
    by (rule capture_check_alias)
next
  assume a: "get_prop payload ''url'' = JStr u \<and> urlContainsEnskild u"
  then show b: "postKungorelseToLocal payload = Blocked"
    using relay_blocks_alias by blast
  from a have "truthy payload" using get_prop_string_truthy by blast
  with b show "onMessage (JObj [(''type'', JStr ''KV_SAVE_KUNGORELSE''), (''payload'', payload)])
            = Some Blocked"
    by (simp add: onMessage_def)
next
  assume m: "m \<in> set (sent (run es (load d0)))"
  have "capture_inv (run es (load d0))"
    by (rule run_inv) (rule load_inv)
  then have "list_all (\<lambda>m. case sent_url m of JStr u \<Rightarrow> \<not> urlContainsEnskild u | _ \<Rightarrow> False)
      (sent (run es (load d0)))"
    by (simp add: capture_inv_def)
  with m have "case sent_url m of JStr u \<Rightarrow> \<not> urlContainsEnskild u | _ \<Rightarrow> False"
    by (simp add: list_all_iff)
  then show "\<exists>v. sent_url m = JStr v \<and> \<not> urlContainsEnskild v"
    by (cases "sent_url m") simp_all
qed

text \<open>The theorem of C1 at the alias page of K100-25, at a record carrying its URL, and at the
  message sent in the scenario.\<close>

theorem alias_never_forwarded_witness:
  "urlContainsEnskild (loc_href (page alias_url (Some (filler 600)) 0 False))
   \<and> captureKungorelseData (page alias_url (Some (filler 600)) 0 False)
        (load (page detail_url (Some (filler 600)) 0 False))
      = load (page detail_url (Some (filler 600)) 0 False)
   \<and> sent (capture_check ''K100-25'' (page alias_url (Some (filler 600)) 0 False)
        (load (page detail_url (Some (filler 600)) 0 False))) = []
   \<and> get_prop (JObj [(''url'', JStr alias_url), (''kungorelseId'', JStr ''K100-25'')]) ''url''
       = JStr alias_url
   \<and> postKungorelseToLocal (JObj [(''url'', JStr alias_url), (''kungorelseId'', JStr ''K100-25'')])
       = Blocked
   \<and> capture_message ''K100-25'' (page detail_url (Some (filler 600)) 0 False)
       \<in> set (sent (run scenario (load (page alias_url (Some (filler 600)) 2 True))))
   \<and> sent_url (capture_message ''K100-25'' (page detail_url (Some (filler 600)) 0 False))
       = JStr detail_url
   \<and> \<not> urlContainsEnskild detail_url"
  using alias_never_forwarded
    [of "page alias_url (Some (filler 600)) 0 False"
        "load (page detail_url (Some (filler 600)) 0 False)" "''K100-25''"
        "JObj [(''url'', JStr alias_url), (''kungorelseId'', JStr ''K100-25'')]" alias_url
        "capture_message ''K100-25'' (page detail_url (Some (filler 600)) 0 False)"
        scenario "page alias_url (Some (filler 600)) 2 True"]
    alias_url_facts(3) scenario_run detail_url_facts(3,4,5)
  by (simp add: load_def)

text \<open>Claim C2. Whatever events arrive after the script has loaded on any page, in any order:
  at every step boundary (after the first \<open>n\<close> events) no id is both captured and pending;
  the messages sent up to a boundary stay in the log, so the log of the whole run holds
  every message ever sent; and the log holds at most one message for an id.\<close>

theorem capture_at_most_once:
  "capturedKungorelseIds (run (take n es) (load d0)) \<inter> pendingCaptures (run (take n es) (load d0)) = {}
   \<and> (\<exists>more. sent (run es (load d0)) = sent (run (take n es) (load d0)) @ more)
   \<and> length (filter (\<lambda>m. sent_id m = JStr i) (sent (run es (load d0)))) \<le> 1"
proof (intro conjI)
  have "capture_inv (run (take n es) (load d0))"
    by (rule run_inv) (rule load_inv)
  then show "capturedKungorelseIds (run (take n es) (load d0))
      \<inter> pendingCaptures (run (take n es) (load d0)) = {}"
    by (simp add: capture_inv_def)
next
  have "run es (load d0) = run (drop n es) (run (take n es) (load d0))"
    using run_append[of "take n es" "drop n es" "load d0"] by simp
  then show "\<exists>more. sent (run es (load d0)) = sent (run (take n es) (load d0)) @ more"
    using run_sent_grows[of "drop n es" "run (take n es) (load d0)"] by simp
next
  have "capture_inv (run es (load d0))"
    by (rule run_inv) (rule load_inv)
  then have "distinct (map sent_id (sent (run es (load d0))))"
    by (simp add: capture_inv_def)
  then show "length (filter (\<lambda>m. sent_id m = JStr i) (sent (run es (load d0)))) \<le> 1"
    by (rule distinct_map_count)
qed

text \<open>The theorem of C2 in the scenario: two further classifications reach the page of
  K100-25 while its capture is pending and one after it, and exactly one message is sent.\<close>

theorem capture_at_most_once_witness:
  "sent (run scenario (load (page alias_url (Some (filler 600)) 2 True)))
     = [capture_message ''K100-25'' (page detail_url (Some (filler 600)) 0 False)]
   \<and> length (filter (\<lambda>m. sent_id m = JStr ''K100-25'')
        (sent (run scenario (load (page alias_url (Some (filler 600)) 2 True))))) = 1
   \<and> capturedKungorelseIds (run (take 3 scenario) (load (page alias_url (Some (filler 600)) 2 True)))
       \<inter> pendingCaptures (run (take 3 scenario) (load (page alias_url (Some (filler 600)) 2 True)))
      = {}"
  using capture_at_most_once
    [of 3 scenario "page alias_url (Some (filler 600)) 2 True" "''K100-25''"]
    scenario_run
  by simp

text \<open>Claim C7, as stated, fails: a detail page whose text has reached 600 characters is still
  rejected when it shows three announcement links (the link-list test applies below 1000
  characters).\<close>

theorem link_page_600_counterexample:
  "kungorelse_re detail_url \<and> \<not> urlContainsEnskild detail_url
   \<and> length (filler 600) = 600
   \<and> capture_check ''K100-25'' (page detail_url (Some (filler 600)) 3 False)
       \<lparr>capturedKungorelseIds = {}, pendingCaptures = {''K100-25''}, lastUrl = detail_url,
        enskildHandled = False, monitors = True, tasks = [], sent = [], clicked = []\<rparr>
     = \<lparr>capturedKungorelseIds = {}, pendingCaptures = {}, lastUrl = detail_url,
        enskildHandled = False, monitors = True, tasks = [], sent = [], clicked = []\<rparr>"
  using detail_url_facts(1,2,3)
  by (simp add: capture_check_def)

text \<open>Claim C7, amended. At the capture check a page whose extracted text is shorter than 500
  characters (300, say, or no body at all) is rejected, and so is a page with more than two
  announcement links and fewer than 1000 characters. A page with at least 500 characters
  (600, say) is accepted, captured and sent, when it has at most two such links or at least
  1000 characters, its URL is still a detail URL outside the alias pattern, and its id is
  not captured yet.\<close>

theorem content_readiness:
  "(length (case body_text d of None \<Rightarrow> [] | Some t \<Rightarrow> t) < 500 \<longrightarrow>
      capture_check i d st = st\<lparr>pendingCaptures := pendingCaptures st - {i}\<rparr>)
   \<and> (2 < link_count d \<and> length (case body_text d of None \<Rightarrow> [] | Some t \<Rightarrow> t) < 1000 \<longrightarrow>
      capture_check i d st = st\<lparr>pendingCaptures := pendingCaptures st - {i}\<rparr>)
   \<and> (body_text d = Some t \<and> 500 \<le> length t \<and> (link_count d \<le> 2 \<or> 1000 \<le> length t)
       \<and> kungorelse_re (loc_href d) \<and> \<not> enskild_re (loc_href d)
       \<and> \<not> urlContainsEnskild (loc_href d) \<and> i \<notin> capturedKungorelseIds st \<longrightarrow>
      capture_check i d st =
        st\<lparr>capturedKungorelseIds := insert i (capturedKungorelseIds st),
           pendingCaptures := pendingCaptures st - {i},
           sent := sent st @ [capture_message i d]\<rparr>)"
  by (auto simp add: capture_check_def)

text \<open>The theorem of C7 at the detail page of K100-25 with 300 characters, with 600
  characters and two links, and with 999 characters and three links.\<close>

theorem content_readiness_witness:
  "length (filler 300) < 500
   \<and> capture_check ''K100-25'' (page detail_url (Some (filler 300)) 0 False)
       \<lparr>capturedKungorelseIds = {}, pendingCaptures = {''K100-25''}, lastUrl = detail_url,
        enskildHandled = False, monitors = True, tasks = [], sent = [], clicked = []\<rparr>
     = \<lparr>capturedKungorelseIds = {}, pendingCaptures = {}, lastUrl = detail_url,
        enskildHandled = False, monitors = True, tasks = [], sent = [], clicked = []\<rparr>
   \<and> 500 \<le> length (filler 600)
   \<and> capture_check ''K100-25'' (page detail_url (Some (filler 600)) 2 False)
       \<lparr>capturedKungorelseIds = {}, pendingCaptures = {''K100-25''}, lastUrl = detail_url,
        enskildHandled = False, monitors = True, tasks = [], sent = [], clicked = []\<rparr>
     = \<lparr>capturedKungorelseIds = {''K100-25''}, pendingCaptures = {}, lastUrl = detail_url,
        enskildHandled = False, monitors = True, tasks = [],
        sent = [capture_message ''K100-25'' (page detail_url (Some (filler 600)) 2 False)],
        clicked = []\<rparr>
   \<and> 2 < link_count (page detail_url (Some (filler 999)) 3 False)
   \<and> length (filler 999) < 1000
   \<and> sent (capture_check ''K100-25'' (page detail_url (Some (filler 999)) 3 False)
       \<lparr>capturedKungorelseIds = {}, pendingCaptures = {''K100-25''}, lastUrl = detail_url,
        enskildHandled = False, monitors = True, tasks = [], sent = [], clicked = []\<rparr>) = []"
  using content_readiness
    [of "page detail_url (Some (filler 999)) 3 False" "''K100-25''"
        "\<lparr>capturedKungorelseIds = {}, pendingCaptures = {''K100-25''}, lastUrl = detail_url,
          enskildHandled = False, monitors = True, tasks = [], sent = [], clicked = []\<rparr>"]
    content_readiness
    [of "page detail_url (Some (filler 300)) 0 False" "''K100-25''"
        "\<lparr>capturedKungorelseIds = {}, pendingCaptures = {''K100-25''}, lastUrl = detail_url,
          enskildHandled = False, monitors = True, tasks = [], sent = [], clicked = []\<rparr>"]
    content_readiness
    [of "page detail_url (Some (filler 600)) 2 False" "''K100-25''"
        "\<lparr>capturedKungorelseIds = {}, pendingCaptures = {''K100-25''}, lastUrl = detail_url,
          enskildHandled = False, monitors = True, tasks = [], sent = [], clicked = []\<rparr>"
        "filler 600"]
    detail_url_facts(1,2,3)
  by simp

section \<open>The alias page\<close>

lemma remove_nth_filter:
  "n < length ts \<Longrightarrow>
   length (filter P (take n ts @ drop (Suc n) ts)) + (if P (ts ! n) then 1 else 0)
     = length (filter P ts)"
proof -
  assume "n < length ts"
  then have "ts = take n ts @ ts ! n # drop (Suc n) ts"
    by (rule id_take_nth_drop)
  then have "length (filter P ts) = length (filter P (take n ts @ ts ! n # drop (Suc n) ts))"
    by simp
  then show ?thesis by simp
qed

lemma captureKungorelseData_alias_fields [simp]:
  "clicked (captureKungorelseData d st) = clicked st"
  "enskildHandled (captureKungorelseData d st) = enskildHandled st"
  "filter is_enskild_task (tasks (captureKungorelseData d st)) = filter is_enskild_task (tasks st)"
  by (simp_all add: captureKungorelseData_def Let_def split: option.splits)

lemma capture_check_alias_fields [simp]:
  "clicked (capture_check i d st) = clicked st"
  "enskildHandled (capture_check i d st) = enskildHandled st"
  "tasks (capture_check i d st) = tasks st"
  by (simp_all add: capture_check_def)

lemma click_budget_cong:
  "clicked st' = clicked st \<Longrightarrow> enskildHandled st' = enskildHandled st \<Longrightarrow>
   filter is_enskild_task (tasks st') = filter is_enskild_task (tasks st) \<Longrightarrow>
   click_budget st' = click_budget st"
  by (simp add: click_budget_def handlers_in_flight_def)

lemma click_budget_settled [simp]: "click_budget (settled k st) = click_budget st"
  by (rule click_budget_cong) simp_all

lemma click_budget_capture [simp]: "click_budget (captureKungorelseData d st) = click_budget st"
  by (rule click_budget_cong) simp_all

lemma click_budget_capture_check [simp]: "click_budget (capture_check i d st) = click_budget st"
  by (rule click_budget_cong) simp_all

lemma click_budget_handle:
  "body_text d \<noteq> None \<Longrightarrow> click_budget (handleEnskildPage k d st) \<le> click_budget st"
  by (auto simp add: handleEnskildPage_def click_budget_def handlers_in_flight_def)

lemma click_budget_run_task:
  "body_text d \<noteq> None \<Longrightarrow>
   click_budget (run_task t d st) \<le> click_budget st + (if is_enskild_task t then 1 else 0)"
proof (cases t)
  case InitialCheck
  assume "body_text d \<noteq> None"
  then show ?thesis using InitialCheck click_budget_handle[of d ThenRecheck st]
    by (simp add: initial_check_def)
next
  case (EnskildDwell k)
  have "click_budget (st\<lparr>tasks := tasks st @ [EnskildClick link k]\<rparr>) = click_budget st + 1" for link
    by (simp add: click_budget_def handlers_in_flight_def)
  then show ?thesis using EnskildDwell
    by (simp add: after_dwell_def split: option.splits)
next
  case (EnskildClick link k)
  have "click_budget (st\<lparr>clicked := clicked st @ [link]\<rparr>) = click_budget st + 1"
    by (simp add: click_budget_def handlers_in_flight_def)
  then show ?thesis using EnskildClick
    by (simp add: click_link_def)
next
  case RecheckAfterClick
  then show ?thesis by (simp add: recheck_after_click_def)
next
  case CaptureAfterClick
  then show ?thesis by simp
next
  case (CaptureCheck i)
  then show ?thesis by simp
qed

text \<open>One step spends at most what a URL change seen by the poller adds.\<close>

lemma click_budget_step:
  assumes "body_text (event_dom e) \<noteq> None"
  shows "click_budget (step e st) \<le> click_budget st + url_changes [e] st"
proof (cases e)
  case (Tick d)
  let ?st1 = "st\<lparr>lastUrl := loc_href d,
                 enskildHandled := (if body_text d \<noteq> None then False else enskildHandled st)\<rparr>"
  have 1: "click_budget ?st1 \<le> click_budget st + 1"
    by (simp add: click_budget_def handlers_in_flight_def)
  have 2: "click_budget (handleEnskildPage ThenCapture d ?st1) \<le> click_budget ?st1"
    using assms Tick by (intro click_budget_handle) simp
  show ?thesis using Tick 1 2
    by (simp add: poll_def Let_def)
next
  case (Mutation d)
  then show ?thesis using assms click_budget_handle[of d NoThen st]
    by (simp add: observe_def)
next
  case (Run n d)
  show ?thesis
  proof (cases "n < length (tasks st)")
    case True
    let ?st' = "st\<lparr>tasks := take n (tasks st) @ drop (Suc n) (tasks st)\<rparr>"
    have "click_budget ?st' + (if is_enskild_task (tasks st ! n) then 1 else 0) = click_budget st"
      using remove_nth_filter[OF True, of is_enskild_task]
      by (simp add: click_budget_def handlers_in_flight_def)
    moreover have "click_budget (run_task (tasks st ! n) d ?st')
        \<le> click_budget ?st' + (if is_enskild_task (tasks st ! n) then 1 else 0)"
      using assms Run by (intro click_budget_run_task) simp
    ultimately show ?thesis using Run True by simp
  next
    case False
    then show ?thesis using Run by simp
  qed
qed

lemma url_changes_Cons: "url_changes (e # es) st = url_changes [e] st + url_changes es (step e st)"
  by (cases e) simp_all

lemma click_budget_run:
  "\<forall>e \<in> set es. body_text (event_dom e) \<noteq> None \<Longrightarrow>
   click_budget (run es st) \<le> click_budget st + url_changes es st"
proof (induction es arbitrary: st)
  case Nil
  then show ?case by simp
next
  case (Cons e es)
  have "click_budget (run es (step e st)) \<le> click_budget (step e st) + url_changes es (step e st)"
    using Cons by simp
  moreover have "click_budget (step e st) \<le> click_budget st + url_changes [e] st"
    using Cons.prems by (intro click_budget_step) simp
  ultimately show ?case
    using url_changes_Cons[of e es st] by simp
qed

lemma click_budget_load: "body_text d \<noteq> None \<Longrightarrow> click_budget (load d) \<le> 1"
proof -
  assume b: "body_text d \<noteq> None"
  have 0: "click_budget \<lparr>capturedKungorelseIds = {}, pendingCaptures = {}, lastUrl = u,
                enskildHandled = False, monitors = m, tasks = (if m then [InitialCheck] else []),
                sent = [], clicked = []\<rparr> = 1" for u m
    by (simp add: click_budget_def handlers_in_flight_def)
  show ?thesis
    using click_budget_handle[OF b, of NoThen] 0
    by (simp add: load_def Let_def) (metis (full_types))
qed

section \<open>The handled flag\<close>

lemma flag_kept_handle: "enskildHandled st \<Longrightarrow> enskildHandled (handleEnskildPage k d st)"
  by (simp add: handleEnskildPage_def)

lemma flag_kept_run_task: "enskildHandled st \<Longrightarrow> enskildHandled (run_task t d st)"
  by (cases t) (simp_all add: initial_check_def recheck_after_click_def flag_kept_handle)

lemma flag_reset_only_by_poller:
  "enskildHandled st \<Longrightarrow> \<not> enskildHandled (step e st) \<Longrightarrow>
   \<exists>d. e = Tick d \<and> monitors st \<and> loc_href d \<noteq> lastUrl st"
proof (cases e)
  case (Tick d)
  assume "enskildHandled st" "\<not> enskildHandled (step e st)"
  then show ?thesis using Tick by (auto simp add: poll_def split: if_splits)
next
  case (Mutation d)
  assume "enskildHandled st" "\<not> enskildHandled (step e st)"
  then show ?thesis using Mutation by (auto simp add: observe_def flag_kept_handle split: if_splits)
next
  case (Run n d)
  assume a: "enskildHandled st" "\<not> enskildHandled (step e st)"
  have "enskildHandled (run_task t d (st\<lparr>tasks := ts\<rparr>))" for t ts
    using a(1) by (intro flag_kept_run_task) simp
  with a Run show ?thesis by (auto split: if_splits)
qed

lemma first_link_page [simp]:
  "first_link (page u b n l) selectors = (if l then Some ''link'' else None)"
  by (simp add: selectors_def)

text \<open>When the script loads on an alias page before \<open>document.body\<close> exists, the first call
  of \<open>handleEnskildPage\<close> cannot store the flag, the call made by the initial check passes
  the guard too, and both click.\<close>

lemma null_body_double_click:
  "clicked (run alias_double_click (load (page alias_url None 0 False))) = [''link'', ''link'']
   \<and> url_changes alias_double_click (load (page alias_url None 0 False)) = 0"
  by (simp add: alias_double_click_def load_def handleEnskildPage_def initial_check_def
      after_dwell_def click_link_def alias_url_facts Let_def)

lemma alias_url_b_facts:
  "enskild_re alias_url_b" "isEnskildPage alias_url_b" "alias_url_b \<noteq> alias_url"
  by code_simp+

text \<open>Claim C9, as stated, fails, the body existing throughout: a suspended call of
  \<open>handleEnskildPage\<close> is not cancelled by a URL change and looks for the link only after
  its wait. The script loads on one alias page and its call is suspended; no click happens
  there. The poller sees a second alias page, resets the flag, and a second call passes the
  guard. Every later callback runs on the second page: both calls find its link and both
  click, two clicks on one page instance, the flag being set all the while.\<close>

theorem stale_call_double_click_counterexample:
  "body_text (page alias_url (Some (filler 600)) 2 True) \<noteq> None
   \<and> clicked (load (page alias_url (Some (filler 600)) 2 True)) = []
   \<and> list_all (\<lambda>e. loc_href (event_dom e) = alias_url_b \<and> body_text (event_dom e) \<noteq> None)
        stale_call_clicks
   \<and> clicked (run (take 1 stale_call_clicks) (load (page alias_url (Some (filler 600)) 2 True))) = []
   \<and> enskildHandled (run (take 1 stale_call_clicks) (load (page alias_url (Some (filler 600)) 2 True)))
   \<and> clicked (run stale_call_clicks (load (page alias_url (Some (filler 600)) 2 True)))
       = [''link'', ''link'']
   \<and> enskildHandled (run stale_call_clicks (load (page alias_url (Some (filler 600)) 2 True)))
   \<and> url_changes stale_call_clicks (load (page alias_url (Some (filler 600)) 2 True)) = 1"
  using alias_url_b_facts
  by (simp add: stale_call_clicks_def load_def handleEnskildPage_def poll_def
      after_dwell_def click_link_def alias_url_facts Let_def)

text \<open>Claim C9, amended. While \<open>document.body\<close> exists: a call of \<open>handleEnskildPage\<close> that
  finds the handled flag set starts nothing (no click, no suspended call; only the timer
  chained by its caller is set), and a call on an alias page that finds it unset sets it
  and suspends once. A suspended call that finds no link under any of the ordered
  selectors clicks nothing and returns; one that finds a link waits once more and clicks
  exactly that link. A step of the event queue unsets the flag only when it is a poller tick
  that sees a new URL. A suspended call is not cancelled by a URL change, so the clicks
  are bounded per call that passed the guard, not per page: when the body exists at load
  and at every callback, the number of clicks never exceeds one plus the number of URL
  changes the poller has seen.\<close>

theorem enskild_click_guard:
  "(body_text d \<noteq> None \<and> enskildHandled st \<longrightarrow>
      handleEnskildPage k d st = settled k st
      \<and> clicked (handleEnskildPage k d st) = clicked st
      \<and> handlers_in_flight (handleEnskildPage k d st) = handlers_in_flight st)
   \<and> (body_text d \<noteq> None \<and> isEnskildPage (loc_href d) \<and> \<not> enskildHandled st \<longrightarrow>
      enskildHandled (handleEnskildPage k d st)
      \<and> handlers_in_flight (handleEnskildPage k d st) = Suc (handlers_in_flight st))
   \<and> (first_link d selectors = None \<longrightarrow>
      after_dwell k d st = settled k st
      \<and> clicked (after_dwell k d st) = clicked st
      \<and> handlers_in_flight (after_dwell k d st) = handlers_in_flight st)
   \<and> (first_link d selectors = Some link \<longrightarrow>
      after_dwell k d st = st\<lparr>tasks := tasks st @ [EnskildClick link k]\<rparr>)
   \<and> clicked (click_link link k st) = clicked st @ [link]
   \<and> (enskildHandled st \<and> \<not> enskildHandled (step e st) \<longrightarrow>
      (\<exists>d'. e = Tick d' \<and> monitors st \<and> loc_href d' \<noteq> lastUrl st))
   \<and> (body_text d0 \<noteq> None \<and> (\<forall>e \<in> set es. body_text (event_dom e) \<noteq> None) \<longrightarrow>
      length (clicked (run es (load d0))) \<le> 1 + url_changes es (load d0))"
proof (intro conjI impI)
  assume a: "body_text d \<noteq> None \<and> enskildHandled st"
  then show 1: "handleEnskildPage k d st = settled k st"
    by (simp add: handleEnskildPage_def)
  show "clicked (handleEnskildPage k d st) = clicked st"
    by simp
  show "handlers_in_flight (handleEnskildPage k d st) = handlers_in_flight st"
    unfolding 1 by (simp add: handlers_in_flight_def)
next
  assume a: "body_text d \<noteq> None \<and> isEnskildPage (loc_href d) \<and> \<not> enskildHandled st"
  then show "enskildHandled (handleEnskildPage k d st)"
    by (simp add: handleEnskildPage_def)
  from a show "handlers_in_flight (handleEnskildPage k d st) = Suc (handlers_in_flight st)"
    by (simp add: handleEnskildPage_def handlers_in_flight_def)
next
  assume a: "first_link d selectors = None"
  then show 1: "after_dwell k d st = settled k st"
    by (simp add: after_dwell_def)
  show "clicked (after_dwell k d st) = clicked st"
    by simp
  show "handlers_in_flight (after_dwell k d st) = handlers_in_flight st"
    unfolding 1 by (simp add: handlers_in_flight_def)
next
  assume "first_link d selectors = Some link"
  then show "after_dwell k d st = st\<lparr>tasks := tasks st @ [EnskildClick link k]\<rparr>"
    by (simp add: after_dwell_def)
next
  show "clicked (click_link link k st) = clicked st @ [link]"
    by simp
next
  assume "enskildHandled st \<and> \<not> enskildHandled (step e st)"
  then show "\<exists>d'. e = Tick d' \<and> monitors st \<and> loc_href d' \<noteq> lastUrl st"
    using flag_reset_only_by_poller by blast
next
  assume a: "body_text d0 \<noteq> None \<and> (\<forall>e \<in> set es. body_text (event_dom e) \<noteq> None)"
  then have "click_budget (run es (load d0)) \<le> click_budget (load d0) + url_changes es (load d0)"
    by (intro click_budget_run) simp
  moreover have "click_budget (load d0) \<le> 1"
    using a by (intro click_budget_load) simp
  moreover have "length (clicked (run es (load d0))) \<le> click_budget (run es (load d0))"
    by (simp add: click_budget_def)
  ultimately show "length (clicked (run es (load d0))) \<le> 1 + url_changes es (load d0)"
    by linarith
qed

lemma alias_visit_run:
  "run alias_visit (load (page alias_url (Some (filler 600)) 2 True))
   = \<lparr>capturedKungorelseIds = {}, pendingCaptures = {}, lastUrl = alias_url,
      enskildHandled = True, monitors = True, tasks = [RecheckAfterClick],
      sent = [], clicked = [''link'']\<rparr>"
  by (simp add: alias_visit_def load_def handleEnskildPage_def initial_check_def observe_def
      after_dwell_def click_link_def alias_url_facts Let_def)

lemma alias_visit_changes:
  "url_changes alias_visit (load (page alias_url (Some (filler 600)) 2 True)) = 0"
  by (simp add: alias_visit_def load_def handleEnskildPage_def initial_check_def observe_def
      after_dwell_def click_link_def alias_url_facts Let_def)

lemma alias_load:
  "load (page alias_url (Some (filler 600)) 2 True)
   = \<lparr>capturedKungorelseIds = {}, pendingCaptures = {}, lastUrl = alias_url,
      enskildHandled = True, monitors = True, tasks = [InitialCheck, EnskildDwell NoThen],
      sent = [], clicked = []\<rparr>"
  by (simp add: load_def handleEnskildPage_def alias_url_facts Let_def)

lemma detail_load:
  "load (page detail_url (Some (filler 600)) 0 False)
   = \<lparr>capturedKungorelseIds = {}, pendingCaptures = {}, lastUrl = detail_url,
      enskildHandled = False, monitors = True, tasks = [InitialCheck],
      sent = [], clicked = []\<rparr>"
  by (simp add: load_def detail_url_facts Let_def)

lemma alias_leave:
  "step (Tick (page detail_url (Some (filler 600)) 0 False))
     (load (page alias_url (Some (filler 600)) 2 True))
   = \<lparr>capturedKungorelseIds = {}, pendingCaptures = {''K100-25''}, lastUrl = detail_url,
      enskildHandled = False, monitors = True,
      tasks = [InitialCheck, EnskildDwell NoThen, CaptureCheck ''K100-25''],
      sent = [], clicked = []\<rparr>"
  using alias_differs
  by (simp add: alias_load poll_def captureKungorelseData_def detail_url_facts Let_def)

text \<open>The theorem of C9 on the alias page of K100-25: a repeated call is a no-operation, a page
  without a link gets no click, leaving for the detail page resets the flag, and a whole
  visit with repeated observer firings clicks once.\<close>

theorem enskild_click_guard_witness:
  "body_text (page alias_url (Some (filler 600)) 2 True) \<noteq> None
   \<and> enskildHandled (load (page alias_url (Some (filler 600)) 2 True))
   \<and> handleEnskildPage NoThen (page alias_url (Some (filler 600)) 2 True)
        (load (page alias_url (Some (filler 600)) 2 True))
      = load (page alias_url (Some (filler 600)) 2 True)
   \<and> first_link (page alias_url (Some (filler 600)) 0 False) selectors = None
   \<and> clicked (after_dwell NoThen (page alias_url (Some (filler 600)) 0 False)
        (load (page alias_url (Some (filler 600)) 2 True))) = []
   \<and> \<not> enskildHandled (step (Tick (page detail_url (Some (filler 600)) 0 False))
        (load (page alias_url (Some (filler 600)) 2 True)))
   \<and> clicked (run alias_visit (load (page alias_url (Some (filler 600)) 2 True))) = [''link'']
   \<and> url_changes alias_visit (load (page alias_url (Some (filler 600)) 2 True)) = 0
   \<and> isEnskildPage (loc_href (page alias_url (Some (filler 600)) 2 True))
   \<and> \<not> enskildHandled (load (page detail_url (Some (filler 600)) 0 False))
   \<and> enskildHandled (handleEnskildPage NoThen (page alias_url (Some (filler 600)) 2 True)
        (load (page detail_url (Some (filler 600)) 0 False)))"
  using enskild_click_guard
    [of "page alias_url (Some (filler 600)) 2 True"
        "load (page detail_url (Some (filler 600)) 0 False)" NoThen "''link''"
        "Tick (page detail_url (Some (filler 600)) 0 False)"
        "page alias_url (Some (filler 600)) 2 True" alias_visit]
    enskild_click_guard
    [of "page alias_url (Some (filler 600)) 2 True"
        "load (page alias_url (Some (filler 600)) 2 True)" NoThen "''link''"
        "Tick (page detail_url (Some (filler 600)) 0 False)"
        "page alias_url (Some (filler 600)) 2 True" alias_visit]
    enskild_click_guard
    [of "page alias_url (Some (filler 600)) 0 False"
        "load (page alias_url (Some (filler 600)) 2 True)" NoThen "''link''"
        "Tick (page detail_url (Some (filler 600)) 0 False)"
        "page alias_url (Some (filler 600)) 2 True" alias_visit]
    alias_visit_run alias_visit_changes alias_leave alias_url_facts(5)
  by (simp add: alias_load detail_load)

section \<open>The hook layer\<close>

lemma search_url_target: "isTargetUrl example_resolve (JStr search_url)"
  by code_simp

lemma chrome_url_ignored: "shouldIgnoreUrl (JStr ''chrome://settings/'')"
  by code_simp

lemma search_url_not_ignored: "\<not> shouldIgnoreUrl (JStr search_url)"
  by code_simp

text \<open>What does hold for URLs that are not of interest: the fetch wrapper posts nothing,
  and neither does a request object that was opened once.\<close>

lemma fetch_wrapper_not_target:
  "\<not> isTargetUrl resolve (JStr (requestUrl input)) \<Longrightarrow> fetch_wrapper resolve parse input r = []"
  by (simp add: fetch_wrapper_def)

lemma isTargetUrl_iff:
  "isTargetUrl resolve u \<longleftrightarrow>
     \<not> shouldIgnoreUrl u
     \<and> (\<exists>pathname. resolve u = Some (TARGET_HOST, pathname) \<and> endpoint_re pathname)"
  by (auto simp add: isTargetUrl_def split: option.splits)

lemma fresh_xhr_not_target:
  "\<not> isTargetUrl resolve u \<Longrightarrow>
   loadend resolve parse (xhr_send (xhr_open u new_xhr)) r = []"
  by (simp add: loadend_def loadend_handler_def xhr_send_def xhr_open_def new_xhr_def)

text \<open>Claim C3 says that a call whose URL has a scheme of the ignore list makes the hook layer
  emit nothing. The wrapper of \<open>open\<close> returns early for such a URL and leaves \<open>__kv_url\<close> as
  it was. On a request object that was used before for an endpoint of interest, the stale
  URL is still there when \<open>loadend\<close> fires for \<open>chrome://settings/\<close>: both listeners (one per
  \<open>send\<close>) post a message under the old URL, with the body of the ignored call.\<close>

theorem stale_xhr_url_emits:
  "shouldIgnoreUrl (JStr ''chrome://settings/'')
   \<and> loadend example_resolve example_parse
       (xhr_send (xhr_open (JStr ''chrome://settings/'')
          (xhr_send (xhr_open (JStr search_url) new_xhr))))
       \<lparr>response_type = [], response_body = [], response_ct = None\<rparr>
     = bridgeSave (JObj [(''url'', JStr search_url), (''data'', raw_text [])])
       @ bridgeSave (JObj [(''url'', JStr search_url), (''data'', raw_text [])])"
  using search_url_target chrome_url_ignored search_url_not_ignored
  by (simp add: loadend_def loadend_handler_def xhr_send_def xhr_open_def new_xhr_def
      raw_text_def toLowerCase_def search_url_def)

text \<open>Claim C8, as stated, fails: for a response of interest that declares JSON and whose body
  \<open><html>\<close> does not parse, nothing is emitted, neither by a request with \<open>responseType\<close>
  \<open>json\<close> (the browser hands over \<open>null\<close>, which the handler skips) nor by the fetch wrapper
  (after the failed \<open>json()\<close> the body of the clone is used up, and the \<open>text()\<close> of the
  fallback is rejected).\<close>

theorem decode_failure_suppressed_counterexample:
  "isTargetUrl example_resolve (JStr search_url)
   \<and> example_parse ''<html>'' = None
   \<and> loadend example_resolve example_parse (xhr_send (xhr_open (JStr search_url) new_xhr))
       \<lparr>response_type = ''json'', response_body = ''<html>'',
        response_ct = Some ''application/json''\<rparr> = []
   \<and> fetch_wrapper example_resolve example_parse (InputString search_url)
       \<lparr>content_type = Some ''application/json'', resp_body = Body ''<html>''\<rparr> = []"
proof -
  have ct: "js_includes (toLowerCase ''application/json'') ''application/json''"
    by code_simp
  have p: "example_parse ''<html>'' = None"
    by (simp add: example_parse_def)
  show ?thesis
    using search_url_target search_url_not_ignored ct p
    by (simp add: loadend_def loadend_handler_def xhr_send_def xhr_open_def new_xhr_def
      fetch_wrapper_def fetch_capture_def resp_json_def consume_body_def search_url_def)
qed

text \<open>Claim C8, amended. For a request of interest, one \<open>loadend\<close> listener emits: with
  \<open>responseType\<close> empty or \<open>text\<close>, the decoded value when the content type contains
  \<open>application/json\<close> and the text parses (nothing when that value is \<open>null\<close>), and otherwise
  the raw-text wrapper, so that a decode failure does not suppress the emission; with
  \<open>responseType\<close> \<open>json\<close>, the value the browser decoded, whatever the content type, and
  nothing when the body does not parse; with any other \<open>responseType\<close>, nothing. The fetch
  wrapper emits the decoded value when the content type contains \<open>application/json\<close> and
  the body parses, the raw-text wrapper when the content type is another one and the body
  can be read, and the raw-text wrapper of the empty text for a response without a body.
  No case raises an error: the functions are total and every rejection is caught.\<close>

theorem hook_payload:
  "(kv_url x = Some u \<and> truthy u \<and> isTargetUrl resolve u \<longrightarrow>
      ((response_type r = [] \<or> response_type r = ''text'') \<longrightarrow>
          loadend_handler resolve parse x r =
            (if js_includes (toLowerCase (case response_ct r of None \<Rightarrow> [] | Some c \<Rightarrow> c))
                  ''application/json''
             then (case parse (response_body r) of
                     Some v \<Rightarrow>
                       if v = JNull \<or> v = JUndefined then []
                       else bridgeSave (JObj [(''url'', u), (''data'', v)])
                   | None \<Rightarrow>
                       bridgeSave (JObj [(''url'', u), (''data'', raw_text (response_body r))]))
             else bridgeSave (JObj [(''url'', u), (''data'', raw_text (response_body r))])))
      \<and> (response_type r = ''json'' \<longrightarrow>
          loadend_handler resolve parse x r =
            (case parse (response_body r) of
               Some v \<Rightarrow>
                 if v = JNull \<or> v = JUndefined then []
                 else bridgeSave (JObj [(''url'', u), (''data'', v)])
             | None \<Rightarrow> []))
      \<and> (response_type r \<noteq> [] \<and> response_type r \<noteq> ''text'' \<and> response_type r \<noteq> ''json'' \<longrightarrow>
          loadend_handler resolve parse x r = []))
   \<and> (js_includes (toLowerCase (case content_type resp of None \<Rightarrow> [] | Some c \<Rightarrow> c))
          ''application/json''
       \<and> resp_body resp = Body s \<and> parse s = Some v \<longrightarrow>
        fetch_capture parse url resp = bridgeSave (JObj [(''url'', JStr url), (''data'', v)]))
   \<and> (\<not> js_includes (toLowerCase (case content_type resp of None \<Rightarrow> [] | Some c \<Rightarrow> c))
            ''application/json''
       \<and> resp_body resp = Body s \<longrightarrow>
        fetch_capture parse url resp
          = bridgeSave (JObj [(''url'', JStr url), (''data'', raw_text s)]))
   \<and> (resp_body resp = NoBody \<and> parse [] = None \<longrightarrow>
        fetch_capture parse url resp
          = bridgeSave (JObj [(''url'', JStr url), (''data'', raw_text [])]))"
proof (intro conjI impI)
  assume a: "kv_url x = Some u \<and> truthy u \<and> isTargetUrl resolve u"
    and b: "response_type r = [] \<or> response_type r = ''text''"
  have "raw_text t \<noteq> JNull" "raw_text t \<noteq> JUndefined" for t
    by (simp_all add: raw_text_def)
  with a b show "loadend_handler resolve parse x r =
            (if js_includes (toLowerCase (case response_ct r of None \<Rightarrow> [] | Some c \<Rightarrow> c))
                  ''application/json''
             then (case parse (response_body r) of
                     Some v \<Rightarrow>
                       if v = JNull \<or> v = JUndefined then []
                       else bridgeSave (JObj [(''url'', u), (''data'', v)])
                   | None \<Rightarrow>
                       bridgeSave (JObj [(''url'', u), (''data'', raw_text (response_body r))]))
             else bridgeSave (JObj [(''url'', u), (''data'', raw_text (response_body r))]))"
    by (auto simp add: loadend_handler_def Let_def split: option.splits)
next
  assume a: "kv_url x = Some u \<and> truthy u \<and> isTargetUrl resolve u"
    and b: "response_type r = ''json''"
  then show "loadend_handler resolve parse x r =
            (case parse (response_body r) of
               Some v \<Rightarrow>
                 if v = JNull \<or> v = JUndefined then []
                 else bridgeSave (JObj [(''url'', u), (''data'', v)])
             | None \<Rightarrow> [])"
    by (auto simp add: loadend_handler_def Let_def split: option.splits)
next
  assume a: "kv_url x = Some u \<and> truthy u \<and> isTargetUrl resolve u"
    and b: "response_type r \<noteq> [] \<and> response_type r \<noteq> ''text'' \<and> response_type r \<noteq> ''json''"
  then show "loadend_handler resolve parse x r = []"
    by (simp add: loadend_handler_def)
next
  assume a: "js_includes (toLowerCase (case content_type resp of None \<Rightarrow> [] | Some c \<Rightarrow> c))
          ''application/json''
       \<and> resp_body resp = Body s \<and> parse s = Some v"
  then have "(case content_type resp of None \<Rightarrow> [] | Some c \<Rightarrow> c) \<noteq> []"
    by (auto simp add: toLowerCase_def)
  with a show "fetch_capture parse url resp = bridgeSave (JObj [(''url'', JStr url), (''data'', v)])"
    by (simp add: fetch_capture_def resp_json_def consume_body_def)
next
  assume "\<not> js_includes (toLowerCase (case content_type resp of None \<Rightarrow> [] | Some c \<Rightarrow> c))
            ''application/json''
       \<and> resp_body resp = Body s"
  then show "fetch_capture parse url resp
          = bridgeSave (JObj [(''url'', JStr url), (''data'', raw_text s)])"
    by (simp add: fetch_capture_def consume_body_def)
next
  assume "resp_body resp = NoBody \<and> parse [] = None"
  then show "fetch_capture parse url resp
          = bridgeSave (JObj [(''url'', JStr url), (''data'', raw_text [])])"
    by (simp add: fetch_capture_def resp_json_def consume_body_def Let_def)
qed

lemma json_ct: "js_includes (toLowerCase ''application/json'') ''application/json''"
  by code_simp

lemma html_ct: "\<not> js_includes (toLowerCase ''text/html'') ''application/json''"
  by code_simp

text \<open>The theorem of C8 at the search endpoint, for the bodies \<open>[]\<close> and \<open><html>\<close>.\<close>

theorem hook_payload_witness:
  "kv_url (xhr_send (xhr_open (JStr search_url) new_xhr)) = Some (JStr search_url)
   \<and> isTargetUrl example_resolve (JStr search_url)
   \<and> loadend_handler example_resolve example_parse (xhr_send (xhr_open (JStr search_url) new_xhr))
        \<lparr>response_type = [], response_body = ''[]'', response_ct = Some ''application/json''\<rparr>
      = bridgeSave (JObj [(''url'', JStr search_url), (''data'', JArr [])])
   \<and> loadend_handler example_resolve example_parse (xhr_send (xhr_open (JStr search_url) new_xhr))
        \<lparr>response_type = ''text'', response_body = ''<html>'', response_ct = Some ''application/json''\<rparr>
      = bridgeSave (JObj [(''url'', JStr search_url), (''data'', raw_text ''<html>'')])
   \<and> loadend_handler example_resolve example_parse (xhr_send (xhr_open (JStr search_url) new_xhr))
        \<lparr>response_type = ''json'', response_body = ''[]'', response_ct = Some ''text/html''\<rparr>
      = bridgeSave (JObj [(''url'', JStr search_url), (''data'', JArr [])])
   \<and> loadend_handler example_resolve example_parse (xhr_send (xhr_open (JStr search_url) new_xhr))
        \<lparr>response_type = ''blob'', response_body = ''[]'', response_ct = Some ''application/json''\<rparr>
      = []
   \<and> fetch_capture example_parse search_url
        \<lparr>content_type = Some ''application/json'', resp_body = Body ''[]''\<rparr>
      = bridgeSave (JObj [(''url'', JStr search_url), (''data'', JArr [])])
   \<and> fetch_capture example_parse search_url
        \<lparr>content_type = Some ''text/html'', resp_body = Body ''<html>''\<rparr>
      = bridgeSave (JObj [(''url'', JStr search_url), (''data'', raw_text ''<html>'')])
   \<and> fetch_capture example_parse search_url
        \<lparr>content_type = Some ''application/json'', resp_body = NoBody\<rparr>
      = bridgeSave (JObj [(''url'', JStr search_url), (''data'', raw_text [])])"
  using
    hook_payload[of "xhr_send (xhr_open (JStr search_url) new_xhr)" "JStr search_url"
      example_resolve
      "\<lparr>response_type = [], response_body = ''[]'', response_ct = Some ''application/json''\<rparr>"
      example_parse
      "\<lparr>content_type = Some ''application/json'', resp_body = Body ''[]''\<rparr>" "''[]''" "JArr []"
      search_url]
    hook_payload[of "xhr_send (xhr_open (JStr search_url) new_xhr)" "JStr search_url"
      example_resolve
      "\<lparr>response_type = ''text'', response_body = ''<html>'', response_ct = Some ''application/json''\<rparr>"
      example_parse
      "\<lparr>content_type = Some ''text/html'', resp_body = Body ''<html>''\<rparr>" "''<html>''" "JArr []"
      search_url]
    hook_payload[of "xhr_send (xhr_open (JStr search_url) new_xhr)" "JStr search_url"
      example_resolve
      "\<lparr>response_type = ''json'', response_body = ''[]'', response_ct = Some ''text/html''\<rparr>"
      example_parse
      "\<lparr>content_type = Some ''application/json'', resp_body = NoBody\<rparr>" "''[]''" "JArr []"
      search_url]
    hook_payload[of "xhr_send (xhr_open (JStr search_url) new_xhr)" "JStr search_url"
      example_resolve
      "\<lparr>response_type = ''blob'', response_body = ''[]'', response_ct = Some ''application/json''\<rparr>"
      example_parse
      "\<lparr>content_type = Some ''application/json'', resp_body = NoBody\<rparr>" "''[]''" "JArr []"
      search_url]
    search_url_target search_url_not_ignored json_ct html_ct
  by (simp add: xhr_send_def xhr_open_def new_xhr_def example_parse_def search_url_def)

end
